theory Spec2Isabelle
  imports Complex_Main "HOL-Library.Word" "HOL-Library.Sublist"
begin

section \<open>MulticopterSim: the vehicle pawn and its threaded workers\<close>

text \<open>
  The development embeds \<^verbatim>\<open>Source/MulticopterSim/VehiclePawn.cpp\<close> (the consumer side
  of the simulator: \<^verbatim>\<open>BeginPlay\<close>, \<^verbatim>\<open>EndPlay\<close>, \<^verbatim>\<open>Tick\<close>, the worker start/stop helpers,
  \<^verbatim>\<open>getKinematics\<close>, \<^verbatim>\<open>addAnimationEffects\<close>, \<^verbatim>\<open>setGimbal\<close>) and the frame class
  \<^verbatim>\<open>BigQuadDynamics\<close> with its factory.

  Conventions of the embedding:
  \<^item> a C++ \<^verbatim>\<open>float\<close> is an IEEE 754 binary32 value (section ``Single-precision
    arithmetic''): every sum, product and quotient is rounded to binary32, to nearest
    with ties to even, with signed zeros, infinities and NaN, and no intermediate
    result is kept in a wider format;
  \<^item> the static \<^verbatim>\<open>uint64_t count\<close> of \<^verbatim>\<open>Tick\<close> is a \<^typ>\<open>64 word\<close>, so \<^verbatim>\<open>count++\<close> wraps;
  \<^item> a worker pointer is a \<^typ>\<open>nat option\<close>, \<^term>\<open>None\<close> being the null pointer; calling a
    method through a null pointer or through a pointer to a stopped worker is a fault;
  \<^item> every call into the engine or into a worker is appended to a trace, so that
    ``performs no read'' and ``reads exactly once'' are statements about that trace;
  \<^item> what the flight manager thread and the engine hand back during one tick (snapshot,
    gimbal angles, message, spring-arm rotation) is an input of that tick;
  \<^item> the engine calls \<^verbatim>\<open>BeginPlay\<close> once, before any \<^verbatim>\<open>Tick\<close> or \<^verbatim>\<open>EndPlay\<close> of the pawn.

  The constructor, \<^verbatim>\<open>PostInitializeComponents\<close> and \<^verbatim>\<open>NotifyHit\<close> only set up or
  forward to engine objects and are not embedded; the prop meshes that
  \<^verbatim>\<open>PostInitializeComponents\<close> binds by name are a field of the pawn, \<open>None\<close> where no
  mesh was found.
\<close>

subsection \<open>Single-precision arithmetic\<close>

text \<open>A \<^verbatim>\<open>float\<close>: a sign bit (\<open>True\<close> for negative) with a magnitude that is zero or
  a binary32 number, an infinity with its sign, or NaN. The magnitude is kept as an exact
  rational, so that equal floats are equal terms.\<close>

datatype float = Finite bool rat | Infinity bool | NaN

definition pow2 :: "int \<Rightarrow> rat" where
  "pow2 k = (if 0 \<le> k then 2 ^ nat k else 1 / 2 ^ nat (- k))"

text \<open>The number of binary digits of a positive integer, and with it the exponent of
  the leading binary digit of a positive rational \<open>a / b\<close>: the difference of the two
  digit counts is that exponent or one more than it.\<close>

function bit_length :: "int \<Rightarrow> int" where
  "bit_length a = (if a \<le> 0 then 0 else 1 + bit_length (a div 2))"
  by pat_completeness auto
termination
  by (relation "measure nat") auto

declare bit_length.simps [simp del]

definition floor_log2 :: "rat \<Rightarrow> int" where
  "floor_log2 q =
     (case quotient_of q of
        (a, b) \<Rightarrow>
          (let L = bit_length a - bit_length b
           in if pow2 L \<le> q then L else L - 1))"

text \<open>Rounding to the nearest integer, a tie going to the even one.\<close>

definition round_even :: "rat \<Rightarrow> int" where
  "round_even x =
     (let f = \<lfloor>x\<rfloor>; r = x - of_int f
      in if r < 1 / 2 then f else if 1 / 2 < r then f + 1 else if even f then f else f + 1)"

text \<open>Rounding a magnitude to binary32. A binary32 number has 24 significant binary
  digits and its last digit has an exponent of at least \<open>-149\<close>: \<open>ulp_exp q\<close> is the
  exponent of the last digit kept for \<open>q\<close>, and \<open>round_mag q\<close> the nearest multiple of
  that unit. A rounded magnitude of \<open>2 ^ 128\<close> or more is beyond the largest binary32
  number: the result is an infinity.\<close>

definition ulp_exp :: "rat \<Rightarrow> int" where
  "ulp_exp q = max (floor_log2 q - 23) (- 149)"

definition round_mag :: "rat \<Rightarrow> rat" where
  "round_mag q =
     (if q = 0 then 0 else of_int (round_even (q / pow2 (ulp_exp q))) * pow2 (ulp_exp q))"

definition fl :: "bool \<Rightarrow> rat \<Rightarrow> float" where
  "fl s q = (if 2 ^ 128 \<le> round_mag q then Infinity s else Finite s (round_mag q))"

definition signed :: "bool \<Rightarrow> rat \<Rightarrow> rat" where
  "signed s q = (if s then - q else q)"

definition fl_exact :: "rat \<Rightarrow> float" where
  "fl_exact x = fl (x < 0) \<bar>x\<bar>"

text \<open>The operations the pawn uses: \<^verbatim>\<open>+\<close>, unary and binary \<^verbatim>\<open>-\<close>, \<^verbatim>\<open>*\<close>, \<^verbatim>\<open>/\<close>,
  \<^verbatim>\<open>>\<close> and the conversion of an integer to \<^verbatim>\<open>float\<close>. An exact sum of zero is \<open>+0\<close>
  unless both summands are negative; a comparison with NaN is false.\<close>

fun fadd :: "float \<Rightarrow> float \<Rightarrow> float" where
  "fadd NaN y = NaN"
| "fadd x NaN = NaN"
| "fadd (Infinity s) (Infinity t) = (if s = t then Infinity s else NaN)"
| "fadd (Infinity s) (Finite t b) = Infinity s"
| "fadd (Finite s a) (Infinity t) = Infinity t"
| "fadd (Finite s a) (Finite t b) =
     (if signed s a + signed t b = 0 then Finite (s \<and> t) 0
      else fl_exact (signed s a + signed t b))"

fun fneg :: "float \<Rightarrow> float" where
  "fneg NaN = NaN"
| "fneg (Infinity s) = Infinity (\<not> s)"
| "fneg (Finite s a) = Finite (\<not> s) a"

definition fsub :: "float \<Rightarrow> float \<Rightarrow> float" where
  "fsub x y = fadd x (fneg y)"

fun fmul :: "float \<Rightarrow> float \<Rightarrow> float" where
  "fmul NaN y = NaN"
| "fmul x NaN = NaN"
| "fmul (Infinity s) (Infinity t) = Infinity (s \<noteq> t)"
| "fmul (Infinity s) (Finite t b) = (if b = 0 then NaN else Infinity (s \<noteq> t))"
| "fmul (Finite s a) (Infinity t) = (if a = 0 then NaN else Infinity (s \<noteq> t))"
| "fmul (Finite s a) (Finite t b) = fl (s \<noteq> t) (a * b)"

fun fdiv :: "float \<Rightarrow> float \<Rightarrow> float" where
  "fdiv NaN y = NaN"
| "fdiv x NaN = NaN"
| "fdiv (Infinity s) (Infinity t) = NaN"
| "fdiv (Infinity s) (Finite t b) = Infinity (s \<noteq> t)"
| "fdiv (Finite s a) (Infinity t) = Finite (s \<noteq> t) 0"
| "fdiv (Finite s a) (Finite t b) =
     (if b = 0 then (if a = 0 then NaN else Infinity (s \<noteq> t))
      else fl (s \<noteq> t) (a / b))"

fun fgt :: "float \<Rightarrow> float \<Rightarrow> bool" where
  "fgt NaN y = False"
| "fgt x NaN = False"
| "fgt (Infinity s) (Infinity t) = (\<not> s \<and> t)"
| "fgt (Infinity s) (Finite t b) = (\<not> s)"
| "fgt (Finite s a) (Infinity t) = t"
| "fgt (Finite s a) (Finite t b) = (signed t b < signed s a)"

definition float_of_int :: "int \<Rightarrow> float" where
  "float_of_int i = fl_exact (of_int i)"

subsection \<open>Engine values\<close>

datatype FVector = FVector float float float

datatype FRotator = FRotator (Pitch: float) (Yaw: float) (Roll: float)

type_synonym objref = nat

type_synonym handle = nat

text \<open>The members of \<^verbatim>\<open>frame\<close> that the pawn reads: \<^verbatim>\<open>frame.nmotors\<close> and
  \<^verbatim>\<open>frame.motordirs[j]\<close>, an integer per motor.\<close>

record frame_t =
  nmotors :: nat
  motordirs :: "nat \<Rightarrow> int"

subsection \<open>Workers, the process-wide state and the trace\<close>

datatype 'p worker_kind =
    FFlightManager frame_t 'p FVector FRotator
  | FVideoManager objref objref

record 'p worker =
  kind :: "'p worker_kind"
  running :: bool

datatype event =
    Play
  | Error string
  | Super_BeginPlay
  | Super_EndPlay nat
  | Super_Tick float
  | Create handle
  | Stop "handle option"
  | FM_getKinematics handle
  | SetActorLocation FVector
  | SetActorRotation FRotator
  | SetFloatParameter string float
  | SetRelativeRotation objref FRotator
  | FM_getGimbal handle
  | SetWorldRotation FRotator
  | VM_grabCurrentImage handle
  | Debug handle string

text \<open>State that does not belong to one pawn instance: the function-local statics
  \<^verbatim>\<open>static uint64_t count\<close> (in \<^verbatim>\<open>Tick\<close>) and \<^verbatim>\<open>static float rotation\<close> (in
  \<^verbatim>\<open>addAnimationEffects\<close>), the workers allocated so far (a handle is an index into this
  list), and the trace of calls.\<close>

record 'p world =
  count :: "64 word"
  rotation :: float
  workers :: "'p worker list"
  trace :: "event list"

record 'p AVehiclePawn =
  mapSelected :: bool
  startLocation :: FVector
  startRotation :: FRotator
  flightManager :: "handle option"
  videoManager :: "handle option"
  motorvals :: "nat \<Rightarrow> float"
  propMeshes :: "nat \<Rightarrow> objref option"
  camera1RenderTarget :: objref
  camera2RenderTarget :: objref
  frame :: frame_t
  params :: 'p
  actorLocation :: FVector
  actorRotation :: FRotator

text \<open>What one tick receives from outside the pawn: \<^verbatim>\<open>DeltaSeconds\<close>, the values
  \<^verbatim>\<open>FFlightManager::getKinematics\<close> writes to its three out-parameters and returns, the
  values \<^verbatim>\<open>getGimbal\<close> writes, the current \<^verbatim>\<open>GetComponentRotation()\<close> of the spring arm and
  the flight manager's message.\<close>

record tick_input =
  DeltaSeconds :: float
  kin_location :: FVector
  kin_rotation :: FRotator
  kin_motorvals :: "nat \<Rightarrow> float"
  kin_crashed :: bool
  gimbal_roll :: float
  gimbal_pitch :: float
  springArmRotation :: FRotator
  message :: string

text \<open>The ways a call can fail to complete: a method call through a null pointer or
  through a pointer to a stopped worker, and a loop that never ends.\<close>

datatype fault = NullPointer | DanglingPointer | NoReturn

type_synonym 'p st = "'p AVehiclePawn \<times> 'p world"

type_synonym 'p outcome = "(fault \<times> 'p world) + 'p st"

definition emit :: "event \<Rightarrow> 'p world \<Rightarrow> 'p world" where
  "emit e w = w\<lparr>trace := trace w @ [e]\<rparr>"

definition and_then :: "'p outcome \<Rightarrow> ('p st \<Rightarrow> 'p outcome) \<Rightarrow> 'p outcome" where
  "and_then r f = (case r of Inl x \<Rightarrow> Inl x | Inr s \<Rightarrow> f s)"

definition deref :: "'p world \<Rightarrow> handle option \<Rightarrow> fault + handle" where
  "deref w ptr =
     (case ptr of
        None \<Rightarrow> Inl NullPointer
      | Some h \<Rightarrow>
          if h < length (workers w) \<and> running (workers w ! h) then Inr h
          else Inl DanglingPointer)"

subsection \<open>The worker lifecycle\<close>

text \<open>Modelled from the spec: \<^verbatim>\<open>FFlightManager::create\<close> and \<^verbatim>\<open>FVideoManager::create\<close> are
  not among the sources. The spec: ``\<^verbatim>\<open>create(...) -> handle\<close> starts the dedicated execution
  context and returns an opaque handle''; for the flight manager it ``allocates the
  worker, its owned Dynamics Model, initializes state to the given ground-truth pose''.
  A created worker is a new entry of the worker list, running, that records the
  arguments it was created with.\<close>

definition create_worker :: "'p worker_kind \<Rightarrow> 'p world \<Rightarrow> handle \<times> 'p world" where
  "create_worker k w =
     (length (workers w),
      emit (Create (length (workers w)))
        (w\<lparr>workers := workers w @ [\<lparr>kind = k, running = True\<rparr>]\<rparr>))"

definition FFlightManager_create ::
    "frame_t \<Rightarrow> 'p \<Rightarrow> FVector \<Rightarrow> FRotator \<Rightarrow> 'p world \<Rightarrow> handle \<times> 'p world" where
  "FFlightManager_create fr pa loc rot w = create_worker (FFlightManager fr pa loc rot) w"

definition FVideoManager_create :: "objref \<Rightarrow> objref \<Rightarrow> 'p world \<Rightarrow> handle \<times> 'p world" where
  "FVideoManager_create c1 c2 w = create_worker (FVideoManager c1 c2) w"

text \<open>Modelled from the spec: \<^verbatim>\<open>FThreadedWorker::stopThreadedWorker\<close> is not among the
  sources. The spec: ``\<^verbatim>\<open>stop(handle) -> null-handle\<close> signals the context to terminate,
  joins/waits for it to fully exit, releases its owned resources, and returns a null
  handle''; stop of a worker that was never created is a no-op, and a second stop of the
  same handle frees nothing twice.\<close>

definition stopThreadedWorker :: "handle option \<Rightarrow> 'p world \<Rightarrow> handle option \<times> 'p world" where
  "stopThreadedWorker ptr w =
     (None,
      emit (Stop ptr)
        (case ptr of
           None \<Rightarrow> w
         | Some h \<Rightarrow>
             if h < length (workers w)
             then w\<lparr>workers := (workers w)[h := (workers w ! h)\<lparr>running := False\<rparr>]\<rparr>
             else w))"

text \<open>\<^verbatim>\<open>AVehiclePawn::startThreadedWorkers\<close> and \<^verbatim>\<open>AVehiclePawn::stopThreadedWorkers\<close>.\<close>

definition startThreadedWorkers :: "'p st \<Rightarrow> 'p st" where
  "startThreadedWorkers s =
     (case s of (p, w) \<Rightarrow>
        (case FFlightManager_create (frame p) (params p) (startLocation p) (startRotation p) w of
           (fm, w1) \<Rightarrow>
             (case FVideoManager_create (camera1RenderTarget p) (camera2RenderTarget p) w1 of
                (vm, w2) \<Rightarrow> (p\<lparr>flightManager := Some fm, videoManager := Some vm\<rparr>, w2))))"

definition stopThreadedWorkers :: "'p st \<Rightarrow> 'p st" where
  "stopThreadedWorkers s =
     (case s of (p, w) \<Rightarrow>
        (case stopThreadedWorker (flightManager p) w of
           (r1, w1) \<Rightarrow>
             (case stopThreadedWorker (videoManager p) w1 of
                (r2, w2) \<Rightarrow> (p\<lparr>flightManager := r1, videoManager := r2\<rparr>, w2))))"

subsection \<open>BeginPlay and EndPlay\<close>

text \<open>\<^verbatim>\<open>FString::Contains(SubStr, SearchCase = ESearchCase::IgnoreCase, SearchDir =
  ESearchDir::FromStart)\<close> is the engine's; the pawn calls it with the two defaults, so the
  search ignores letter case. \<open>ToUpper\<close> folds the ASCII letters, as \<^verbatim>\<open>TChar::ToUpper\<close>
  does.\<close>

definition ToUpper :: "char \<Rightarrow> char" where
  "ToUpper c =
     (case map_of (zip ''abcdefghijklmnopqrstuvwxyz'' ''ABCDEFGHIJKLMNOPQRSTUVWXYZ'') c of
        Some u \<Rightarrow> u
      | None \<Rightarrow> c)"

fun Strnicmp_eq :: "string \<Rightarrow> string \<Rightarrow> bool" where
  "Strnicmp_eq [] s = True"
| "Strnicmp_eq (c # cs) [] = False"
| "Strnicmp_eq (c # cs) (d # ds) = (ToUpper c = ToUpper d \<and> Strnicmp_eq cs ds)"

fun Stristr :: "string \<Rightarrow> string \<Rightarrow> bool" where
  "Stristr [] sub = False"
| "Stristr (c # cs) sub = (Strnicmp_eq sub (c # cs) \<or> Stristr cs sub)"

definition FString_Contains :: "string \<Rightarrow> string \<Rightarrow> bool" where
  "FString_Contains s sub = Stristr s sub"

text \<open>\<^verbatim>\<open>AVehiclePawn::BeginPlay\<close>; \<open>mapName\<close> is \<^verbatim>\<open>GetWorld()->GetMapName()\<close>.\<close>

definition BeginPlay :: "string \<Rightarrow> 'p st \<Rightarrow> 'p st" where
  "BeginPlay mapName s =
     (case s of (p, w) \<Rightarrow>
        (let p1 = p\<lparr>mapSelected := \<not> FString_Contains mapName ''Untitled''\<rparr>;
             (p2, w2) =
               (if mapSelected p1
                then startThreadedWorkers
                       (p1\<lparr>startLocation := actorLocation p1, startRotation := actorRotation p1\<rparr>,
                        emit Play w)
                else (p1, emit (Error ''NO MAP SELECTED'') w))
         in (p2, emit Super_BeginPlay w2)))"

text \<open>\<^verbatim>\<open>AVehiclePawn::EndPlay\<close>.\<close>

definition EndPlay :: "nat \<Rightarrow> 'p st \<Rightarrow> 'p st" where
  "EndPlay EndPlayReason s =
     (case (if mapSelected (fst s) then stopThreadedWorkers s else s) of
        (p, w) \<Rightarrow> (p, emit (Super_EndPlay EndPlayReason) w))"

subsection \<open>Tick\<close>

text \<open>\<^verbatim>\<open>AVehiclePawn::getKinematics\<close>: one read of the flight manager, a restart of both
  workers when the read reports a crash, then the pose of the read is applied.\<close>

definition getKinematics :: "tick_input \<Rightarrow> 'p st \<Rightarrow> 'p outcome" where
  "getKinematics inp s =
     (case s of (p, w) \<Rightarrow>
        (case deref w (flightManager p) of
           Inl f \<Rightarrow> Inl (f, w)
         | Inr h \<Rightarrow>
             (let location = kin_location inp;
                  rotation = kin_rotation inp;
                  crashed = kin_crashed inp;
                  s1 = (p\<lparr>motorvals := kin_motorvals inp\<rparr>, emit (FM_getKinematics h) w);
                  (p2, w2) =
                    (if crashed then startThreadedWorkers (stopThreadedWorkers s1) else s1)
              in Inr (p2\<lparr>actorLocation := location, actorRotation := rotation\<rparr>,
                      emit (SetActorRotation rotation) (emit (SetActorLocation location) w2)))))"

text \<open>\<^verbatim>\<open>AVehiclePawn::setAudioPitchAndVolume\<close> and \<^verbatim>\<open>AVehiclePawn::addAnimationEffects\<close>.
  \<open>sum_motorvals mv j\<close> is \<^verbatim>\<open>motormean\<close> after \<open>j\<close> rounds of the first loop, which
  starts from the integer 0 converted to \<^verbatim>\<open>float\<close>; \<open>rotate_props\<close> is the second loop
  over the remaining indices. Both loops count with a \<^verbatim>\<open>uint8_t\<close>, which wraps at 256
  and is compared after promotion to \<^verbatim>\<open>int\<close>: for a frame with more than 255 motors the
  first loop never ends. In \<^verbatim>\<open>motormean /= frame.nmotors\<close>, in \<^verbatim>\<open>motormean > 0\<close>, in
  \<^verbatim>\<open>rotation * frame.motordirs[j]*100\<close> (evaluated from the left), in \<^verbatim>\<open>rotation++\<close>
  and in \<^verbatim>\<open>FRotator(0, ..., 0)\<close> the integer operand is converted to \<^verbatim>\<open>float\<close> first.\<close>

definition setAudioPitchAndVolume :: "float \<Rightarrow> 'p world \<Rightarrow> 'p world" where
  "setAudioPitchAndVolume v w =
     emit (SetFloatParameter ''volume'' v) (emit (SetFloatParameter ''pitch'' v) w)"

fun sum_motorvals :: "(nat \<Rightarrow> float) \<Rightarrow> nat \<Rightarrow> float" where
  "sum_motorvals mv 0 = float_of_int 0"
| "sum_motorvals mv (Suc j) = fadd (sum_motorvals mv j) (mv j)"

fun rotate_props :: "'p AVehiclePawn \<Rightarrow> nat list \<Rightarrow> 'p world \<Rightarrow> (fault \<times> 'p world) + 'p world" where
  "rotate_props p [] w = Inr w"
| "rotate_props p (j # js) w =
     (case propMeshes p j of
        None \<Rightarrow> Inl (NullPointer, w)
      | Some mesh \<Rightarrow>
          rotate_props p js
            (emit (SetRelativeRotation mesh
                     (FRotator (float_of_int 0)
                        (fmul (fmul (rotation w) (float_of_int (motordirs (frame p) j)))
                           (float_of_int 100))
                        (float_of_int 0))) w))"

definition addAnimationEffects :: "'p st \<Rightarrow> 'p outcome" where
  "addAnimationEffects s =
     (case s of (p, w) \<Rightarrow>
        if 255 < nmotors (frame p) then Inl (NoReturn, w)
        else
          (let motormean =
                 fdiv (sum_motorvals (motorvals p) (nmotors (frame p)))
                   (float_of_int (int (nmotors (frame p))));
               w1 = setAudioPitchAndVolume motormean w
           in if fgt motormean (float_of_int 0)
              then (case rotate_props p [0..<nmotors (frame p)] w1 of
                      Inl x \<Rightarrow> Inl x
                    | Inr w2 \<Rightarrow> Inr (p, w2\<lparr>rotation := fadd (rotation w2) (float_of_int 1)\<rparr>))
              else Inr (p, w1)))"

text \<open>\<^verbatim>\<open>AVehiclePawn::setGimbal\<close>: \<^verbatim>\<open>rotation.Roll += roll; rotation.Pitch -= pitch;\<close>
  in \<^verbatim>\<open>float\<close> arithmetic.\<close>

definition setGimbal :: "tick_input \<Rightarrow> 'p st \<Rightarrow> 'p outcome" where
  "setGimbal inp s =
     (case s of (p, w) \<Rightarrow>
        (case deref w (flightManager p) of
           Inl f \<Rightarrow> Inl (f, w)
         | Inr h \<Rightarrow>
             (let r = springArmRotation inp
              in Inr (p, emit (SetWorldRotation
                                 (FRotator (fsub (Pitch r) (gimbal_pitch inp)) (Yaw r)
                                    (fadd (Roll r) (gimbal_roll inp))))
                           (emit (FM_getGimbal h) w)))))"

text \<open>The two calls that end the guarded block of \<^verbatim>\<open>Tick\<close>:
  \<^verbatim>\<open>_videoManager->grabCurrentImage()\<close> and \<^verbatim>\<open>debug("%s", _flightManager->getMessage())\<close>.\<close>

definition grabCurrentImage :: "'p st \<Rightarrow> 'p outcome" where
  "grabCurrentImage s =
     (case s of (p, w) \<Rightarrow>
        (case deref w (videoManager p) of
           Inl f \<Rightarrow> Inl (f, w)
         | Inr h \<Rightarrow> Inr (p, emit (VM_grabCurrentImage h) w)))"

definition debugMessage :: "tick_input \<Rightarrow> 'p st \<Rightarrow> 'p outcome" where
  "debugMessage inp s =
     (case s of (p, w) \<Rightarrow>
        (case deref w (flightManager p) of
           Inl f \<Rightarrow> Inl (f, w)
         | Inr h \<Rightarrow> Inr (p, emit (Debug h (message inp)) w)))"

text \<open>\<^verbatim>\<open>AVehiclePawn::Tick\<close>. The condition is \<^verbatim>\<open>_mapSelected && count++>10\<close>: the
  counter is read and incremented only when \<^verbatim>\<open>_mapSelected\<close> holds, and the comparison
  uses its value before the increment.\<close>

definition Tick :: "tick_input \<Rightarrow> 'p st \<Rightarrow> 'p outcome" where
  "Tick inp s =
     (case s of (p, w) \<Rightarrow>
        if mapSelected p then
          (let w0 = w\<lparr>count := count w + 1\<rparr>
           in if 10 < count w then
                and_then (getKinematics inp (p, w0)) (\<lambda>s1.
                and_then (addAnimationEffects s1) (\<lambda>s2.
                and_then (setGimbal inp s2) (\<lambda>s3.
                and_then (grabCurrentImage s3) (\<lambda>s4.
                and_then (debugMessage inp s4) (\<lambda>s5.
                  Inr (fst s5, emit (Super_Tick (DeltaSeconds inp)) (snd s5)))))))
              else Inr (p, emit (Super_Tick (DeltaSeconds inp)) w0))
        else Inr (p, emit (Super_Tick (DeltaSeconds inp)) w))"

subsection \<open>Executions\<close>

text \<open>After \<^verbatim>\<open>BeginPlay\<close> the engine calls \<^verbatim>\<open>Tick\<close> once per frame and \<^verbatim>\<open>EndPlay\<close> at
  the end of play. \<open>run\<close> performs a list of such calls and stops at the first fault.\<close>

datatype call = CallTick tick_input | CallEndPlay nat

fun run :: "call list \<Rightarrow> 'p st \<Rightarrow> 'p outcome" where
  "run [] s = Inr s"
| "run (CallTick inp # cs) s = and_then (Tick inp s) (run cs)"
| "run (CallEndPlay r # cs) s = run cs (EndPlay r s)"

definition outcome_world :: "'p outcome \<Rightarrow> 'p world" where
  "outcome_world r = (case r of Inl (f, w) \<Rightarrow> w | Inr (p, w) \<Rightarrow> w)"

section \<open>Notions used to state the properties\<close>

text \<open>The call of the parent class that ends each engine call.\<close>

fun super_of :: "call \<Rightarrow> event" where
  "super_of (CallTick inp) = Super_Tick (DeltaSeconds inp)"
| "super_of (CallEndPlay r) = Super_EndPlay r"

text \<open>Events that neither create nor stop a worker.\<close>

definition neutral :: "event \<Rightarrow> bool" where
  "neutral e = (case e of Create h \<Rightarrow> False | Stop ptr \<Rightarrow> False | _ \<Rightarrow> True)"

text \<open>\<open>quiet s r\<close>: the outcome \<open>r\<close> was reached from the state \<open>s\<close> without creating or
  stopping a worker, without touching the tick counter, and without changing the pawn.\<close>

definition quiet :: "'p st \<Rightarrow> 'p outcome \<Rightarrow> bool" where
  "quiet s r =
     ((\<exists>es. trace (outcome_world r) = trace (snd s) @ es \<and> list_all neutral es) \<and>
      workers (outcome_world r) = workers (snd s) \<and>
      count (outcome_world r) = count (snd s) \<and>
      (case r of Inl x \<Rightarrow> True | Inr s' \<Rightarrow> fst s' = fst s))"

text \<open>A concrete pawn, world and tick input on which the theorems are exercised: a
  four-motor frame, no worker allocated yet, the tick counter at zero.\<close>

definition example_frame :: frame_t where
  "example_frame = \<lparr>nmotors = 4, motordirs = (\<lambda>j. if j < 2 then - 1 else 1)\<rparr>"

definition example_pawn :: "unit AVehiclePawn" where
  "example_pawn =
     \<lparr>mapSelected = False,
      startLocation = FVector (Finite False 0) (Finite False 0) (Finite False 0),
      startRotation = FRotator (Finite False 0) (Finite False 0) (Finite False 0),
      flightManager = None, videoManager = None,
      motorvals = (\<lambda>j. Finite False 0), propMeshes = (\<lambda>j. Some j),
      camera1RenderTarget = 100, camera2RenderTarget = 101,
      frame = example_frame, params = (),
      actorLocation = FVector (Finite False 1) (Finite False 2) (Finite False 3),
      actorRotation = FRotator (Finite False 0) (Finite False 90) (Finite False 0)\<rparr>"

definition example_world :: "unit world" where
  "example_world = \<lparr>count = 0, rotation = Finite False 0, workers = [], trace = []\<rparr>"

definition example_input :: tick_input where
  "example_input =
     \<lparr>DeltaSeconds = Finite False (1 / 64),
      kin_location = FVector (Finite False 4) (Finite False 5) (Finite False 6),
      kin_rotation = FRotator (Finite False 1) (Finite False 2) (Finite False 3),
      kin_motorvals = (\<lambda>j. Finite False (1 / 2)), kin_crashed = False,
      gimbal_roll = Finite False 3, gimbal_pitch = Finite False 2,
      springArmRotation = FRotator (Finite False 10) (Finite False 20) (Finite False 30),
      message = ''ok''\<rparr>"

text \<open>\<open>outcome_sat I J r\<close>: a completed outcome satisfies the state property \<open>I\<close>, a
  faulted one leaves a world that satisfies \<open>J\<close>.\<close>

definition outcome_sat ::
    "('p st \<Rightarrow> bool) \<Rightarrow> ('p world \<Rightarrow> bool) \<Rightarrow> 'p outcome \<Rightarrow> bool" where
  "outcome_sat I J r = (case r of Inl (f, w) \<Rightarrow> J w | Inr s \<Rightarrow> I s)"

text \<open>Safety of the stop calls of a trace, checked from its start. The checker keeps the
  handles created and not yet stopped, and whether a stop has happened. A stop of a
  handle is safe when that handle is among those created and not yet stopped; a stop of
  the null handle is safe when a stop has happened before it.\<close>

fun stop_step :: "handle list \<times> bool \<Rightarrow> event \<Rightarrow> (handle list \<times> bool) option" where
  "stop_step (live, stopped) (Create h) = Some (h # live, stopped)"
| "stop_step (live, stopped) (Stop None) = (if stopped then Some (live, True) else None)"
| "stop_step (live, stopped) (Stop (Some h)) =
     (if h \<in> set live then Some (removeAll h live, True) else None)"
| "stop_step (live, stopped) e = Some (live, stopped)"

fun stop_check :: "handle list \<times> bool \<Rightarrow> event list \<Rightarrow> (handle list \<times> bool) option" where
  "stop_check st [] = Some st"
| "stop_check st (e # es) =
     (case stop_step st e of None \<Rightarrow> None | Some st' \<Rightarrow> stop_check st' es)"

definition stops_safe :: "event list \<Rightarrow> bool" where
  "stops_safe es = (stop_check ([], False) es \<noteq> None)"

text \<open>The state property behind \<open>stops_safe\<close>: the trace so far is safe, every handle
  still live is allocated, and when a map is selected the two handle fields are either
  two different live handles or both null after a stop.\<close>

definition handles_tracked :: "'p st \<Rightarrow> bool" where
  "handles_tracked s =
     (case stop_check ([], False) (trace (snd s)) of
        None \<Rightarrow> False
      | Some (live, stopped) \<Rightarrow>
          list_all (\<lambda>h. h < length (workers (snd s))) live \<and>
          (\<not> mapSelected (fst s) \<or>
           (case (flightManager (fst s), videoManager (fst s)) of
              (Some a, Some b) \<Rightarrow> a \<noteq> b \<and> a \<in> set live \<and> b \<in> set live
            | (None, None) \<Rightarrow> stopped
            | _ \<Rightarrow> False)))"

text \<open>\<open>seeded_with loc rot ws\<close>: every flight manager among the workers \<open>ws\<close> was
  created with the start pose \<open>(loc, rot)\<close>.\<close>

definition seeded_kind :: "FVector \<Rightarrow> FRotator \<Rightarrow> 'p worker_kind \<Rightarrow> bool" where
  "seeded_kind loc rot k =
     (case k of FFlightManager fr pa l r \<Rightarrow> l = loc \<and> r = rot | FVideoManager c1 c2 \<Rightarrow> True)"

definition seeded_with :: "FVector \<Rightarrow> FRotator \<Rightarrow> 'p worker list \<Rightarrow> bool" where
  "seeded_with loc rot ws = list_all (seeded_kind loc rot) (map kind ws)"

definition pose_kept :: "FVector \<Rightarrow> FRotator \<Rightarrow> nat \<Rightarrow> 'p st \<Rightarrow> bool" where
  "pose_kept loc rot n s =
     (startLocation (fst s) = loc \<and> startRotation (fst s) = rot \<and>
      n \<le> length (workers (snd s)) \<and>
      seeded_with loc rot (drop n (workers (snd s))))"

text \<open>The example pawn after \<^verbatim>\<open>BeginPlay\<close> on a map called \<open>FlightMap\<close>, in a process
  whose tick counter has already reached 11.\<close>

definition example_flying :: "unit st" where
  "example_flying = BeginPlay ''FlightMap'' (example_pawn, example_world\<lparr>count := 11\<rparr>)"

text \<open>The mean of \<open>n\<close> motor values as single-precision arithmetic gives it: the values
  are added in the order of their indices, starting from zero, each sum rounded, and the
  last sum is divided by \<open>n\<close> and rounded. \<open>motormean p\<close> is that mean for the motor
  values of a pawn.\<close>

definition float_mean :: "(nat \<Rightarrow> float) \<Rightarrow> nat \<Rightarrow> float" where
  "float_mean mv n =
     fdiv (foldl fadd (float_of_int 0) (map mv [0..<n])) (float_of_int (int n))"

definition motormean :: "'p AVehiclePawn \<Rightarrow> float" where
  "motormean p = float_mean (motorvals p) (nmotors (frame p))"

text \<open>The number a finite float stands for, and the arithmetic mean of \<open>n\<close> motor values
  taken as numbers: their exact sum divided by \<open>n\<close>. There is none when \<open>n\<close> is zero or
  a value is not finite.\<close>

fun valof :: "float \<Rightarrow> rat option" where
  "valof (Finite s q) = Some (signed s q)"
| "valof (Infinity s) = None"
| "valof NaN = None"

definition arithmetic_mean :: "(nat \<Rightarrow> float) \<Rightarrow> nat \<Rightarrow> rat option" where
  "arithmetic_mean mv n =
     (if n = 0 then None
      else map_option (\<lambda>xs. sum_list xs / of_nat n) (those (map (\<lambda>j. valof (mv j)) [0..<n])))"

text \<open>The prop rotations of one round of the animation at the value \<open>rot\<close> of the static
  rotation counter.\<close>

definition prop_events :: "'p AVehiclePawn \<Rightarrow> float \<Rightarrow> event list" where
  "prop_events p rot =
     map (\<lambda>j. SetRelativeRotation (the (propMeshes p j))
                (FRotator (float_of_int 0)
                   (fmul (fmul rot (float_of_int (motordirs (frame p) j))) (float_of_int 100))
                   (float_of_int 0)))
       [0..<nmotors (frame p)]"

definition is_kinematics_read :: "event \<Rightarrow> bool" where
  "is_kinematics_read e = (case e of FM_getKinematics h \<Rightarrow> True | _ \<Rightarrow> False)"

text \<open>The calls of one round of \<^verbatim>\<open>addAnimationEffects\<close> on a pawn, at the value \<open>rot\<close>
  of the static rotation counter, and the calls that end a guarded tick, made through
  the flight manager \<open>h\<close> and the video manager \<open>v\<close>.\<close>

definition animation_events :: "'p AVehiclePawn \<Rightarrow> float \<Rightarrow> event list" where
  "animation_events p rot =
     [SetFloatParameter ''pitch'' (motormean p), SetFloatParameter ''volume'' (motormean p)] @
     (if fgt (motormean p) (float_of_int 0) then prop_events p rot else [])"

definition next_rotation :: "'p AVehiclePawn \<Rightarrow> float \<Rightarrow> float" where
  "next_rotation p rot =
     (if fgt (motormean p) (float_of_int 0) then fadd rot (float_of_int 1) else rot)"

definition closing_events :: "tick_input \<Rightarrow> handle \<Rightarrow> handle \<Rightarrow> event list" where
  "closing_events inp h v =
     [FM_getGimbal h,
      SetWorldRotation
        (FRotator (fsub (Pitch (springArmRotation inp)) (gimbal_pitch inp))
           (Yaw (springArmRotation inp))
           (fadd (Roll (springArmRotation inp)) (gimbal_roll inp))),
      VM_grabCurrentImage v, Debug h (message inp), Super_Tick (DeltaSeconds inp)]"

text \<open>Two pawn instances in one process: the example pawn begun twice on the same
  world, so that the second instance holds workers of its own.\<close>

definition example_first :: "unit st" where
  "example_first = BeginPlay ''FlightMap'' (example_pawn, example_world)"

definition example_second :: "unit st" where
  "example_second = BeginPlay ''FlightMap'' (example_pawn, snd example_first)"

text \<open>Motor values on which the single-precision mean is not the arithmetic mean: the
  floats nearest to 0.1, 0.2, 0.3 and 0.4; the smallest positive float followed by
  zeros; and \<open>-16777216\<close>, \<open>-1\<close>, \<open>16777216\<close>, \<open>1\<close>, whose sum is zero while the rounded
  sums are \<open>-16777216\<close>, \<open>-16777216\<close>, \<open>0\<close> and \<open>1\<close>.\<close>

definition example_tenths :: "nat \<Rightarrow> float" where
  "example_tenths j = fl_exact (of_nat (Suc j) / 10)"

definition example_tiny :: "nat \<Rightarrow> float" where
  "example_tiny j = (if j = 0 then Finite False (pow2 (- 149)) else Finite False 0)"

definition example_cancel :: "nat \<Rightarrow> float" where
  "example_cancel j =
     (if j = 0 then Finite True (2 ^ 24) else if j = 1 then Finite True 1
      else if j = 2 then Finite False (2 ^ 24) else if j = 3 then Finite False 1
      else Finite False 0)"

text \<open>The example pawn in flight with given motor values, a world in which the static
  \<^verbatim>\<open>rotation\<close> has reached 3, and a pawn whose frame has 256 motors.\<close>

definition example_with :: "(nat \<Rightarrow> float) \<Rightarrow> unit AVehiclePawn" where
  "example_with mv = fst example_flying\<lparr>motorvals := mv\<rparr>"

definition example_turning :: "unit world" where
  "example_turning = snd example_flying\<lparr>rotation := Finite False 3\<rparr>"

definition example_wide :: "unit AVehiclePawn" where
  "example_wide = fst example_flying\<lparr>frame := \<lparr>nmotors = 256, motordirs = (\<lambda>j. 1)\<rparr>\<rparr>"

section \<open>The frame class BigQuadDynamics and its factory\<close>

text \<open>A class is described by the members it implements: an entry is \<open>None\<close> where the
  class leaves the member to its base class. The members are the virtual accessors for
  the physical constants, which \<^verbatim>\<open>BigQuadDynamics\<close> marks \<^verbatim>\<open>override\<close> (\<^verbatim>\<open>b\<close>, \<^verbatim>\<open>d\<close>,
  \<^verbatim>\<open>m\<close>, \<^verbatim>\<open>l\<close>, \<^verbatim>\<open>Ix\<close>, \<^verbatim>\<open>Iy\<close>, \<^verbatim>\<open>Iz\<close>, \<^verbatim>\<open>Jr\<close>, \<^verbatim>\<open>maxrpm\<close>), and the motor-direction
  table. The field names carry the prefix \<open>vt_\<close>, the one-letter names of the source
  being kept free for variables. A constant of type \<^verbatim>\<open>double\<close> is given by the decimal
  literal of the source.\<close>

record vtable =
  vt_b :: "real option"
  vt_d :: "real option"
  vt_m :: "real option"
  vt_l :: "real option"
  vt_Ix :: "real option"
  vt_Iy :: "real option"
  vt_Iz :: "real option"
  vt_Jr :: "real option"
  vt_maxrpm :: "nat option"
  vt_motordirs :: "int list option"

text \<open>The members \<^verbatim>\<open>class BigQuadDynamics : public QuadXAPDynamics\<close> declares.\<close>

definition BigQuadDynamics :: vtable where
  "BigQuadDynamics =
     \<lparr>vt_b = Some 0.0000530216718361085,
      vt_d = Some 0.00000223656692806239,
      vt_m = Some 16.47,
      vt_l = Some 0.6,
      vt_Ix = Some 2,
      vt_Iy = Some 2,
      vt_Iz = Some 3,
      vt_Jr = Some 0.000308013,
      vt_maxrpm = Some 10000,
      vt_motordirs = None\<rparr>"

text \<open>Virtual dispatch on an object of a derived class: the derived class's own
  implementation of a member wins, the base class answers for the rest.\<close>

definition member :: "'a option \<Rightarrow> 'a option \<Rightarrow> 'a option" where
  "member derived base = (case derived of Some x \<Rightarrow> Some x | None \<Rightarrow> base)"

definition dispatch :: "vtable \<Rightarrow> vtable \<Rightarrow> vtable" where
  "dispatch derived base =
     \<lparr>vt_b = member (vt_b derived) (vt_b base),
      vt_d = member (vt_d derived) (vt_d base),
      vt_m = member (vt_m derived) (vt_m base),
      vt_l = member (vt_l derived) (vt_l base),
      vt_Ix = member (vt_Ix derived) (vt_Ix base),
      vt_Iy = member (vt_Iy derived) (vt_Iy base),
      vt_Iz = member (vt_Iz derived) (vt_Iz base),
      vt_Jr = member (vt_Jr derived) (vt_Jr base),
      vt_maxrpm = member (vt_maxrpm derived) (vt_maxrpm base),
      vt_motordirs = member (vt_motordirs derived) (vt_motordirs base)\<rparr>"

text \<open>\<^verbatim>\<open>MultirotorDynamics::create\<close>: \<^verbatim>\<open>return new BigQuadDynamics();\<close>. The result is
  what the members of the new object answer. The base class \<^verbatim>\<open>QuadXAPDynamics\<close> is not
  among the sources: what it implements is a parameter.\<close>

definition MultirotorDynamics_create :: "vtable \<Rightarrow> vtable" where
  "MultirotorDynamics_create base = dispatch BigQuadDynamics base"

text \<open>A class that implements nothing.\<close>

definition no_members :: vtable where
  "no_members =
     \<lparr>vt_b = None, vt_d = None, vt_m = None, vt_l = None, vt_Ix = None, vt_Iy = None,
      vt_Iz = None, vt_Jr = None, vt_maxrpm = None, vt_motordirs = None\<rparr>"

section \<open>Rounding to single precision\<close>

text \<open>The rounding of the embedding is the one of binary32: \<open>floor_log2\<close> is the
  exponent of the leading binary digit, the rounded magnitude is within half a unit in
  the last place of the exact one, and a magnitude with at most 24 significant binary
  digits and a last digit of exponent \<open>-149\<close> or more is left as it is.\<close>

lemma pow2_powi: "pow2 k = 2 powi k"
  by (simp add: pow2_def power_int_def field_simps)

lemma pow2_pos [simp]: "0 < pow2 k"
  by (simp add: pow2_powi)

lemma pow2_nonneg [simp]: "0 \<le> pow2 k"
  by (simp add: pow2_powi)

lemma pow2_nonzero [simp]: "pow2 k \<noteq> 0"
  by (simp add: pow2_powi)

lemma pow2_add: "pow2 (a + b) = pow2 a * pow2 b"
  by (simp add: pow2_powi power_int_add)

lemma pow2_mono: "a \<le> b \<Longrightarrow> pow2 a \<le> pow2 b"
  by (simp add: pow2_powi power_int_increasing)

lemma pow2_less: "pow2 a < pow2 b \<Longrightarrow> a < b"
  using pow2_mono [of b a] by (cases "a < b") auto

lemma pow2_int: "0 \<le> k \<Longrightarrow> pow2 k = of_int (2 ^ nat k)"
  by (simp add: pow2_def)

lemma pow2_gt_int:
  assumes "0 \<le> k" and "a < 2 ^ nat k"
  shows "(of_int a :: rat) < pow2 k"
proof -
  have "(of_int a :: rat) < of_int (2 ^ nat k)"
    using assms(2) by (simp only: of_int_less_iff)
  then show ?thesis by (simp only: pow2_int [OF assms(1)])
qed

lemma pow2_le_int:
  assumes "0 \<le> k" and "2 ^ nat k \<le> a"
  shows "pow2 k \<le> (of_int a :: rat)"
proof -
  have "of_int (2 ^ nat k) \<le> (of_int a :: rat)"
    using assms(2) by (simp only: of_int_le_iff)
  then show ?thesis by (simp only: pow2_int [OF assms(1)])
qed

lemma bit_length_bounds:
  "0 < a \<Longrightarrow> 0 < bit_length a \<and> 2 ^ nat (bit_length a - 1) \<le> a \<and> a < 2 ^ nat (bit_length a)"
proof (induction a rule: bit_length.induct)
  case (1 a)
  show ?case
  proof (cases "a = 1")
    case True
    then show ?thesis by (simp add: bit_length.simps [of 1] bit_length.simps [of 0])
  next
    case False
    with 1(2) have h: "0 < a div 2" by simp
    with 1 have ih: "0 < bit_length (a div 2)"
      "2 ^ nat (bit_length (a div 2) - 1) \<le> a div 2"
      "a div 2 < 2 ^ nat (bit_length (a div 2))"
      by simp_all
    have bl: "bit_length a = 1 + bit_length (a div 2)"
      using 1(2) by (simp add: bit_length.simps [of a])
    have n: "nat (bit_length (a div 2)) = Suc (nat (bit_length (a div 2) - 1))"
      using ih(1) by simp
    have "2 * 2 ^ nat (bit_length (a div 2) - 1) \<le> a" using ih(2) by simp
    then have lo: "2 ^ nat (bit_length (a div 2)) \<le> a" by (subst n) simp
    have hi: "a < 2 * 2 ^ nat (bit_length (a div 2))" using ih(3) by simp
    have m: "nat (1 + bit_length (a div 2)) = Suc (nat (bit_length (a div 2)))"
      using ih(1) by simp
    show ?thesis
      unfolding bl using ih(1) lo hi by (simp add: m)
  qed
qed

lemma floor_log2_bounds:
  assumes "0 < q"
  shows "pow2 (floor_log2 q) \<le> q \<and> q < pow2 (floor_log2 q + 1)"
proof -
  obtain a b where ab: "quotient_of q = (a, b)" by (cases "quotient_of q")
  then have b: "0 < b" and q: "q = of_int a / of_int b"
    by (simp_all add: quotient_of_denom_pos quotient_of_div)
  with assms have a: "0 < a" by (simp add: zero_less_divide_iff)
  let ?L = "bit_length a - bit_length b"
  from bit_length_bounds [OF a] have a2: "(of_int a :: rat) < pow2 (bit_length a)"
    by (intro pow2_gt_int) simp_all
  from bit_length_bounds [OF b] have b1: "pow2 (bit_length b - 1) \<le> (of_int b :: rat)"
    by (intro pow2_le_int) simp_all
  have "q < pow2 (bit_length a) / pow2 (bit_length b - 1)"
    unfolding q using a2 b1 a b
    by (intro frac_less) simp_all
  also have "\<dots> = pow2 (?L + 1)"
    by (simp add: pow2_powi power_int_diff power_int_add)
  finally have up: "q < pow2 (?L + 1)" .
  show ?thesis
  proof (cases "pow2 ?L \<le> q")
    case True
    with up show ?thesis by (simp add: floor_log2_def ab Let_def)
  next
    case False
    from bit_length_bounds [OF a] have a1: "pow2 (bit_length a - 1) \<le> (of_int a :: rat)"
      by (intro pow2_le_int) simp_all
    from bit_length_bounds [OF b] have b2: "(of_int b :: rat) < pow2 (bit_length b)"
      by (intro pow2_gt_int) simp_all
    have "pow2 (?L - 1) = pow2 (bit_length a - 1) / pow2 (bit_length b)"
      by (simp add: pow2_powi power_int_diff)
    also have "\<dots> \<le> q"
      unfolding q using a1 b2 a b
      by (intro frac_le) (simp_all add: less_imp_le)
    finally have "pow2 (?L - 1) \<le> q" .
    with False show ?thesis by (simp add: floor_log2_def ab Let_def)
  qed
qed

lemma round_even_error: "\<bar>of_int (round_even x) - x\<bar> \<le> 1 / 2"
proof -
  define r where "r = x - of_int \<lfloor>x\<rfloor>"
  have r: "0 \<le> r" "r < 1" unfolding r_def by linarith+
  have x: "x = of_int \<lfloor>x\<rfloor> + r" by (simp add: r_def)
  have "round_even x = \<lfloor>x\<rfloor> \<and> r \<le> 1 / 2 \<or> round_even x = \<lfloor>x\<rfloor> + 1 \<and> 1 / 2 \<le> r"
    unfolding round_even_def Let_def r_def [symmetric] by auto
  then show ?thesis
  proof
    assume "round_even x = \<lfloor>x\<rfloor> \<and> r \<le> 1 / 2"
    then have "of_int (round_even x) - x = - r" "r \<le> 1 / 2" using x by simp_all
    with r show ?thesis by simp
  next
    assume "round_even x = \<lfloor>x\<rfloor> + 1 \<and> 1 / 2 \<le> r"
    then have "of_int (round_even x) - x = 1 - r" "1 / 2 \<le> r" using x by simp_all
    with r show ?thesis by simp
  qed
qed

lemma round_even_int [simp]: "round_even (of_int n) = n"
  by (simp add: round_even_def)

lemma round_mag_error:
  "\<bar>round_mag q - q\<bar> \<le> pow2 (ulp_exp q) / 2"
proof (cases "q = 0")
  case True
  then show ?thesis using pow2_pos [of "ulp_exp 0"] by (simp add: round_mag_def less_imp_le)
next
  case False
  let ?u = "pow2 (ulp_exp q)"
  have u: "0 < ?u" by simp
  have "(of_int (round_even (q / ?u)) - q / ?u) * ?u = round_mag q - q"
    using False u by (simp add: round_mag_def left_diff_distrib)
  then have "\<bar>round_mag q - q\<bar> = \<bar>of_int (round_even (q / ?u)) - q / ?u\<bar> * \<bar>?u\<bar>"
    by (simp only: abs_mult [symmetric])
  also have "\<dots> = \<bar>of_int (round_even (q / ?u)) - q / ?u\<bar> * ?u"
    by (simp add: abs_of_pos)
  also have "\<dots> \<le> 1 / 2 * ?u"
    using round_even_error [of "q / ?u"] u by (intro mult_right_mono) simp_all
  finally show ?thesis by simp
qed

lemma round_mag_representable:
  assumes "0 < m" and "m < 2 ^ 24" and "- 149 \<le> e"
  shows "round_mag (of_int m * pow2 e) = of_int m * pow2 e"
proof -
  let ?q = "of_int m * pow2 e :: rat"
  have q: "0 < ?q" using assms(1) by simp
  have "(of_int m :: rat) < pow2 24" using assms(2) by (intro pow2_gt_int) simp_all
  then have "?q < pow2 24 * pow2 e" by (intro mult_strict_right_mono) simp_all
  then have "?q < pow2 (24 + e)" by (simp only: pow2_add)
  with floor_log2_bounds [OF q] have "pow2 (floor_log2 ?q) < pow2 (24 + e)" by simp
  then have "floor_log2 ?q < 24 + e" by (rule pow2_less)
  with assms(3) have u: "ulp_exp ?q \<le> e" by (simp add: ulp_exp_def)
  define d where "d = e - ulp_exp ?q"
  have d: "0 \<le> d" and e: "e = d + ulp_exp ?q" using u by (simp_all add: d_def)
  have "?q / pow2 (ulp_exp ?q) = of_int m * pow2 d"
    by (subst e) (simp add: pow2_add)
  also have "\<dots> = of_int (m * 2 ^ nat d)" by (simp add: pow2_int [OF d])
  finally have "round_even (?q / pow2 (ulp_exp ?q)) = m * 2 ^ nat d"
    by (simp only: round_even_int)
  then have "round_mag ?q = of_int (m * 2 ^ nat d) * pow2 (ulp_exp ?q)"
    using q by (simp add: round_mag_def)
  also have "\<dots> = of_int m * (pow2 d * pow2 (ulp_exp ?q))" by (simp add: pow2_int [OF d])
  also have "\<dots> = ?q" by (simp only: pow2_add [symmetric] e [symmetric])
  finally show ?thesis .
qed

lemma fl_representable:
  assumes "0 < m" and "m < 2 ^ 24" and "- 149 \<le> e" and "e \<le> 104"
  shows "fl s (of_int m * pow2 e) = Finite s (of_int m * pow2 e)"
proof -
  have "(of_int m :: rat) < pow2 24" using assms(2) by (intro pow2_gt_int) simp_all
  then have "of_int m * pow2 e < pow2 24 * pow2 e" by (intro mult_strict_right_mono) simp_all
  also have "\<dots> = pow2 (24 + e)" by (simp only: pow2_add)
  also have "\<dots> \<le> pow2 128" using assms(4) by (intro pow2_mono) simp
  finally have "of_int m * pow2 e < (2 :: rat) ^ 128" by (simp add: pow2_def)
  then show ?thesis
    by (simp add: fl_def round_mag_representable [OF assms(1-3)])
qed

section \<open>Basic facts about the lifecycle helpers\<close>

lemma emit_fields [simp]:
  "count (emit e w) = count w"
  "rotation (emit e w) = rotation w"
  "workers (emit e w) = workers w"
  "trace (emit e w) = trace w @ [e]"
  by (simp_all add: emit_def)

lemma stopThreadedWorker_fst [simp]: "fst (stopThreadedWorker ptr w) = None"
  by (simp add: stopThreadedWorker_def)

lemma stopThreadedWorker_fields [simp]:
  "count (snd (stopThreadedWorker ptr w)) = count w"
  "rotation (snd (stopThreadedWorker ptr w)) = rotation w"
  "trace (snd (stopThreadedWorker ptr w)) = trace w @ [Stop ptr]"
  "length (workers (snd (stopThreadedWorker ptr w))) = length (workers w)"
  by (simp_all add: stopThreadedWorker_def split: option.split)

lemma stopThreadedWorker_running:
  "h < length (workers w) \<Longrightarrow>
   running (workers (snd (stopThreadedWorker ptr w)) ! h) =
     (ptr \<noteq> Some h \<and> running (workers w ! h))"
  by (auto simp add: stopThreadedWorker_def nth_list_update split: option.split)

lemma stopThreadedWorker_kind:
  "h < length (workers w) \<Longrightarrow>
   kind (workers (snd (stopThreadedWorker ptr w)) ! h) = kind (workers w ! h)"
  by (auto simp add: stopThreadedWorker_def nth_list_update split: option.split)

lemma stopThreadedWorkers_eq:
  "stopThreadedWorkers (p, w) =
     (p\<lparr>flightManager := None, videoManager := None\<rparr>,
      snd (stopThreadedWorker (videoManager p) (snd (stopThreadedWorker (flightManager p) w))))"
  by (simp add: stopThreadedWorkers_def split: prod.split)
     (metis stopThreadedWorker_fst fst_conv)

lemma and_then_simps [simp]:
  "and_then (Inr s) f = f s"
  "and_then (Inl x) f = Inl x"
  by (simp_all add: and_then_def)

lemma outcome_world_simps [simp]:
  "outcome_world (Inr (p, w)) = w"
  "outcome_world (Inl (f, w)) = w"
  by (simp_all add: outcome_world_def)

lemma startThreadedWorkers_eq:
  "startThreadedWorkers (p, w) =
     (p\<lparr>flightManager := Some (length (workers w)),
        videoManager := Some (Suc (length (workers w)))\<rparr>,
      w\<lparr>workers := workers w @
           [\<lparr>kind = FFlightManager (frame p) (params p) (startLocation p) (startRotation p),
             running = True\<rparr>,
            \<lparr>kind = FVideoManager (camera1RenderTarget p) (camera2RenderTarget p),
             running = True\<rparr>],
         trace := trace w @ [Create (length (workers w)), Create (Suc (length (workers w)))]\<rparr>)"
  by (simp add: startThreadedWorkers_def FFlightManager_create_def FVideoManager_create_def
      create_worker_def emit_def)

lemma Tick_unselected:
  "\<not> mapSelected p \<Longrightarrow> Tick inp (p, w) = Inr (p, emit (Super_Tick (DeltaSeconds inp)) w)"
  by (simp add: Tick_def)

lemma Tick_early:
  "mapSelected p \<Longrightarrow> count w \<le> 10 \<Longrightarrow>
   Tick inp (p, w) = Inr (p, emit (Super_Tick (DeltaSeconds inp)) (w\<lparr>count := count w + 1\<rparr>))"
  by (simp add: Tick_def Let_def not_less [symmetric])

lemma Tick_gated:
  "mapSelected p \<Longrightarrow> 10 < count w \<Longrightarrow>
   Tick inp (p, w) =
     and_then (getKinematics inp (p, w\<lparr>count := count w + 1\<rparr>)) (\<lambda>s1.
     and_then (addAnimationEffects s1) (\<lambda>s2.
     and_then (setGimbal inp s2) (\<lambda>s3.
     and_then (grabCurrentImage s3) (\<lambda>s4.
     and_then (debugMessage inp s4) (\<lambda>s5.
       Inr (fst s5, emit (Super_Tick (DeltaSeconds inp)) (snd s5)))))))"
  by (simp add: Tick_def Let_def)

lemma EndPlay_unselected:
  "\<not> mapSelected p \<Longrightarrow> EndPlay r (p, w) = (p, emit (Super_EndPlay r) w)"
  by (simp add: EndPlay_def)

lemma count_succ_unat:
  "unat (c :: 64 word) \<le> 10 \<Longrightarrow> unat (c + 1) = Suc (unat c)"
  by (simp add: unat_word_ariths)

lemma early_ticks:
  "unat (count w) + length inps \<le> 11 \<Longrightarrow>
   \<exists>w'. run (map CallTick inps) (p, w) = Inr (p, w') \<and>
        trace w' = trace w @ map (\<lambda>i. Super_Tick (DeltaSeconds i)) inps \<and>
        workers w' = workers w \<and> rotation w' = rotation w"
proof (induction inps arbitrary: w)
  case Nil
  then show ?case by simp
next
  case (Cons i inps)
  then have small: "unat (count w) \<le> 10" by simp
  then have le: "count w \<le> 10" by (simp add: word_le_nat_alt)
  show ?case
  proof (cases "mapSelected p")
    case True
    let ?w1 = "emit (Super_Tick (DeltaSeconds i)) (w\<lparr>count := count w + 1\<rparr>)"
    have "unat (count ?w1) + length inps \<le> 11"
      using Cons.prems count_succ_unat [OF small] by simp
    from Cons.IH [OF this] True le show ?thesis
      by (auto simp add: Tick_early)
  next
    case False
    let ?w1 = "emit (Super_Tick (DeltaSeconds i)) w"
    have "unat (count ?w1) + length inps \<le> 11"
      using Cons.prems by simp
    from Cons.IH [OF this] False show ?thesis
      by (auto simp add: Tick_unselected)
  qed
qed

lemma unselected_run:
  "\<not> mapSelected p \<Longrightarrow>
   run calls (p, w) = Inr (p, w\<lparr>trace := trace w @ map super_of calls\<rparr>)"
proof (induction calls arbitrary: w)
  case Nil
  then show ?case by simp
next
  case (Cons c calls)
  then show ?case
    by (cases c) (simp_all add: Tick_unselected EndPlay_unselected emit_def)
qed

lemma example_begun:
  "BeginPlay ''FlightMap'' (example_pawn, example_world\<lparr>count := 11\<rparr>) =
     (example_pawn\<lparr>mapSelected := True, startLocation := FVector (Finite False 1) (Finite False 2) (Finite False 3),
        startRotation := FRotator (Finite False 0) (Finite False 90) (Finite False 0), flightManager := Some 0, videoManager := Some 1\<rparr>,
      \<lparr>count = 11, rotation = Finite False 0,
       workers = [\<lparr>kind = FFlightManager example_frame () (FVector (Finite False 1) (Finite False 2) (Finite False 3)) (FRotator (Finite False 0) (Finite False 90) (Finite False 0)),
                   running = True\<rparr>,
                  \<lparr>kind = FVideoManager 100 101, running = True\<rparr>],
       trace = [Play, Create 0, Create 1, Super_BeginPlay]\<rparr>)"
  by (simp add: BeginPlay_def FString_Contains_def ToUpper_def startThreadedWorkers_eq
      example_pawn_def example_world_def emit_def)

lemma sum_motorvals_foldl:
  "sum_motorvals mv n = foldl fadd (float_of_int 0) (map mv [0..<n])"
  by (induction n) simp_all

lemma rotate_props_bound:
  "(\<And>j. j \<in> set js \<Longrightarrow> propMeshes p j \<noteq> None) \<Longrightarrow>
   rotate_props p js w =
     Inr (w\<lparr>trace := trace w @
            map (\<lambda>j. SetRelativeRotation (the (propMeshes p j))
                       (FRotator (float_of_int 0)
                          (fmul (fmul (rotation w) (float_of_int (motordirs (frame p) j)))
                             (float_of_int 100))
                          (float_of_int 0))) js\<rparr>)"
proof (induction js arbitrary: w)
  case Nil
  then show ?case by simp
next
  case (Cons j js)
  then obtain mesh where m: "propMeshes p j = Some mesh" by auto
  from Cons have "\<And>i. i \<in> set js \<Longrightarrow> propMeshes p i \<noteq> None" by simp
  from Cons.IH [OF this] m show ?case by (simp add: emit_def)
qed

lemma rotate_props_quiet:
  "(\<exists>es. trace (outcome_world (case rotate_props p js w of Inl x \<Rightarrow> Inl x | Inr w' \<Rightarrow> Inr (q, f w')))
          = trace w @ es \<and> list_all neutral es) \<and>
   workers (outcome_world (case rotate_props p js w of Inl x \<Rightarrow> Inl x | Inr w' \<Rightarrow> Inr (q, f w')))
          = workers w \<and>
   count (outcome_world (case rotate_props p js w of Inl x \<Rightarrow> Inl x | Inr w' \<Rightarrow> Inr (q, f w')))
          = count w"
  if f: "\<And>v. trace (f v) = trace v" "\<And>v. workers (f v) = workers v" "\<And>v. count (f v) = count v"
proof (induction js arbitrary: w)
  case Nil
  then show ?case by (simp add: f)
next
  case (Cons j js)
  show ?case
  proof (cases "propMeshes p j")
    case None
    then show ?thesis by simp
  next
    case (Some mesh)
    let ?e = "SetRelativeRotation mesh
                (FRotator (float_of_int 0)
                          (fmul (fmul (rotation w) (float_of_int (motordirs (frame p) j)))
                             (float_of_int 100))
                          (float_of_int 0))"
    from Cons [of "emit ?e w"] Some show ?thesis
      by (auto simp add: neutral_def)
  qed
qed

lemma quiet_refl: "quiet s (Inr s)"
  by (cases s) (simp add: quiet_def)

lemma quiet_emit: "neutral e \<Longrightarrow> quiet s (Inr (fst s, emit e (snd s)))"
  by (cases s) (simp add: quiet_def)

lemma quiet_and_then:
  assumes "quiet s r" and "\<And>s'. quiet s' (f s')"
  shows "quiet s (and_then r f)"
proof (cases r)
  case (Inl x)
  with assms(1) show ?thesis by (simp add: quiet_def)
next
  case (Inr s')
  obtain p' w' where s': "s' = (p', w')" by (cases s')
  from assms(1) Inr s' obtain es where
    es: "trace w' = trace (snd s) @ es" "list_all neutral es"
    and ws: "workers w' = workers (snd s)" and c: "count w' = count (snd s)"
    and p: "p' = fst s"
    by (auto simp add: quiet_def)
  have q: "quiet s' (f s')" by (rule assms(2))
  from q s' obtain es' where
    es': "trace (outcome_world (f s')) = trace w' @ es'" "list_all neutral es'"
    by (auto simp add: quiet_def)
  from q s' have ws': "workers (outcome_world (f s')) = workers w'"
    and c': "count (outcome_world (f s')) = count w'"
    and p': "(case f s' of Inl x \<Rightarrow> True | Inr s'' \<Rightarrow> fst s'' = p')"
    by (auto simp add: quiet_def split: sum.splits)
  have "trace (outcome_world (f s')) = trace (snd s) @ (es @ es')" "list_all neutral (es @ es')"
    using es es' by simp_all
  then have "\<exists>zs. trace (outcome_world (f s')) = trace (snd s) @ zs \<and> list_all neutral zs"
    by blast
  with ws ws' c c' p p' Inr show ?thesis
    by (auto simp add: quiet_def split: sum.splits)
qed

lemma addAnimationEffects_quiet: "quiet s (addAnimationEffects s)"
proof -
  obtain p w where s: "s = (p, w)" by (cases s)
  let ?m = "fdiv (sum_motorvals (motorvals p) (nmotors (frame p)))
              (float_of_int (int (nmotors (frame p))))"
  let ?w1 = "setAudioPitchAndVolume ?m w"
  let ?r = "case rotate_props p [0..<nmotors (frame p)] ?w1 of
              Inl x \<Rightarrow> Inl x
            | Inr w' \<Rightarrow> Inr (p, w'\<lparr>rotation := fadd (rotation w') (float_of_int 1)\<rparr>)"
  have w1: "trace ?w1 = trace w @ [SetFloatParameter ''pitch'' ?m, SetFloatParameter ''volume'' ?m]"
    "workers ?w1 = workers w" "count ?w1 = count w"
    by (simp_all add: setAudioPitchAndVolume_def)
  show ?thesis
  proof (cases "255 < nmotors (frame p)")
    case True
    with s show ?thesis
      by (simp add: addAnimationEffects_def quiet_def)
  next
    case small: False
    show ?thesis
    proof (cases "fgt ?m (float_of_int 0)")
      case False
      with s w1 small show ?thesis
        by (simp add: addAnimationEffects_def Let_def quiet_def neutral_def)
    next
      case True
      have "(\<exists>es. trace (outcome_world ?r) = trace ?w1 @ es \<and> list_all neutral es) \<and>
        workers (outcome_world ?r) = workers ?w1 \<and> count (outcome_world ?r) = count ?w1"
        by (rule rotate_props_quiet) simp_all
      then obtain es where
        "trace (outcome_world ?r) =
           trace w @ ([SetFloatParameter ''pitch'' ?m, SetFloatParameter ''volume'' ?m] @ es)"
        "list_all neutral ([SetFloatParameter ''pitch'' ?m, SetFloatParameter ''volume'' ?m] @ es)"
        and "workers (outcome_world ?r) = workers w"
        and "count (outcome_world ?r) = count w"
        using w1 by (auto simp add: neutral_def)
      with s True small show ?thesis
        unfolding quiet_def addAnimationEffects_def Let_def
        by (auto split: sum.splits)
    qed
  qed
qed

lemma setGimbal_quiet: "quiet s (setGimbal inp s)"
  by (cases s) (simp add: setGimbal_def quiet_def neutral_def Let_def split: sum.split)

lemma grabCurrentImage_quiet: "quiet s (grabCurrentImage s)"
  by (cases s) (simp add: grabCurrentImage_def quiet_def neutral_def split: sum.split)

lemma debugMessage_quiet: "quiet s (debugMessage inp s)"
  by (cases s) (simp add: debugMessage_def quiet_def neutral_def split: sum.split)

lemma Super_Tick_quiet: "quiet s (Inr (fst s, emit (Super_Tick d) (snd s)))"
  by (rule quiet_emit) (simp add: neutral_def)

lemma rest_of_Tick_quiet:
  "quiet s1
     (and_then (addAnimationEffects s1) (\<lambda>s2.
      and_then (setGimbal inp s2) (\<lambda>s3.
      and_then (grabCurrentImage s3) (\<lambda>s4.
      and_then (debugMessage inp s4) (\<lambda>s5.
        Inr (fst s5, emit (Super_Tick (DeltaSeconds inp)) (snd s5)))))))"
  by (intro quiet_and_then addAnimationEffects_quiet setGimbal_quiet grabCurrentImage_quiet
      debugMessage_quiet Super_Tick_quiet)

lemma deref_Some: "deref w ptr = Inr h \<Longrightarrow> ptr = Some h \<and> h < length (workers w) \<and> running (workers w ! h)"
  by (auto simp add: deref_def split: option.splits if_splits)

lemma deref_count [simp]: "deref (w\<lparr>count := c\<rparr>) ptr = deref w ptr"
  by (simp add: deref_def split: option.split)

lemma getKinematics_fault:
  "deref w (flightManager p) = Inl f \<Longrightarrow> getKinematics inp (p, w) = Inl (f, w)"
  by (simp add: getKinematics_def)

lemma getKinematics_flying:
  "deref w (flightManager p) = Inr h \<Longrightarrow> \<not> kin_crashed inp \<Longrightarrow>
   getKinematics inp (p, w) =
     Inr (p\<lparr>motorvals := kin_motorvals inp, actorLocation := kin_location inp,
            actorRotation := kin_rotation inp\<rparr>,
          w\<lparr>trace := trace w @ [FM_getKinematics h, SetActorLocation (kin_location inp),
                                 SetActorRotation (kin_rotation inp)]\<rparr>)"
  by (simp add: getKinematics_def Let_def emit_def)

lemma getKinematics_crashed:
  assumes "deref w (flightManager p) = Inr h" and "kin_crashed inp"
  shows "getKinematics inp (p, w) =
     Inr (p\<lparr>motorvals := kin_motorvals inp,
            flightManager := Some (length (workers w)),
            videoManager := Some (Suc (length (workers w))),
            actorLocation := kin_location inp, actorRotation := kin_rotation inp\<rparr>,
          (snd (stopThreadedWorker (videoManager p)
             (snd (stopThreadedWorker (Some h) (emit (FM_getKinematics h) w)))))
          \<lparr>workers :=
             workers (snd (stopThreadedWorker (videoManager p)
               (snd (stopThreadedWorker (Some h) (emit (FM_getKinematics h) w))))) @
             [\<lparr>kind = FFlightManager (frame p) (params p) (startLocation p) (startRotation p),
               running = True\<rparr>,
              \<lparr>kind = FVideoManager (camera1RenderTarget p) (camera2RenderTarget p),
               running = True\<rparr>],
           trace := trace w @
             [FM_getKinematics h, Stop (Some h), Stop (videoManager p),
              Create (length (workers w)), Create (Suc (length (workers w))),
              SetActorLocation (kin_location inp), SetActorRotation (kin_rotation inp)]\<rparr>)"
proof -
  from assms(1) have fm: "flightManager p = Some h" by (simp add: deref_Some)
  show ?thesis
    using assms fm
    by (simp add: getKinematics_def Let_def stopThreadedWorkers_eq startThreadedWorkers_eq emit_def)
qed

lemma outcome_sat_simps [simp]:
  "outcome_sat I J (Inr s) = I s"
  "outcome_sat I J (Inl (f, w)) = J w"
  by (simp_all add: outcome_sat_def)

lemma outcome_sat_and_then:
  assumes "outcome_sat I J r" and "\<And>s. I s \<Longrightarrow> outcome_sat I J (f s)"
  shows "outcome_sat I J (and_then r f)"
  using assms by (cases r) auto

lemma Tick_preserves:
  assumes stable: "\<And>s r. I s \<Longrightarrow> quiet s r \<Longrightarrow> outcome_sat I J r"
    and counter: "\<And>p w c. I (p, w) \<Longrightarrow> I (p, w\<lparr>count := c\<rparr>)"
    and read: "\<And>p w inp. I (p, w) \<Longrightarrow> mapSelected p \<Longrightarrow> outcome_sat I J (getKinematics inp (p, w))"
    and inv: "I s"
  shows "outcome_sat I J (Tick inp s)"
proof -
  obtain p w where s: "s = (p, w)" by (cases s)
  show ?thesis
  proof (cases "mapSelected p \<and> 10 < count w")
    case True
    have "I (p, w\<lparr>count := count w + 1\<rparr>)" using inv s by (simp add: counter)
    then have "outcome_sat I J (getKinematics inp (p, w\<lparr>count := count w + 1\<rparr>))"
      using True by (simp add: read)
    then show ?thesis
      unfolding s using True
      by (simp only: Tick_gated) (rule outcome_sat_and_then, assumption, rule stable, assumption, rule rest_of_Tick_quiet)
  next
    case False
    show ?thesis
    proof (cases "mapSelected p")
      case True
      with False have le: "count w \<le> 10" by simp
      have I0: "I (p, w\<lparr>count := count w + 1\<rparr>)" using inv s by (simp add: counter)
      have "quiet (p, w\<lparr>count := count w + 1\<rparr>)
              (Inr (fst (p, w\<lparr>count := count w + 1\<rparr>),
                    emit (Super_Tick (DeltaSeconds inp)) (snd (p, w\<lparr>count := count w + 1\<rparr>))))"
        by (rule Super_Tick_quiet)
      from stable [OF I0 this] True le s show ?thesis by (simp add: Tick_early)
    next
      case False
      have "quiet (p, w) (Inr (fst (p, w), emit (Super_Tick (DeltaSeconds inp)) (snd (p, w))))"
        by (rule Super_Tick_quiet)
      from stable [OF _ this] inv s False show ?thesis by (simp add: Tick_unselected)
    qed
  qed
qed

lemma run_preserves:
  assumes tick: "\<And>inp s. I s \<Longrightarrow> outcome_sat I J (Tick inp s)"
    and endplay: "\<And>r s. I s \<Longrightarrow> I (EndPlay r s)"
  shows "I s \<Longrightarrow> outcome_sat I J (run calls s)"
proof (induction calls arbitrary: s)
  case Nil
  then show ?case by simp
next
  case (Cons c calls)
  show ?case
  proof (cases c)
    case (CallTick inp)
    have "outcome_sat I J (and_then (Tick inp s) (run calls))"
      by (rule outcome_sat_and_then) (rule tick [OF Cons.prems], rule Cons.IH)
    with CallTick show ?thesis by simp
  next
    case (CallEndPlay r)
    with Cons.IH [OF endplay [OF Cons.prems]] show ?thesis by simp
  qed
qed

subsection \<open>The start pose is kept\<close>

lemma stopThreadedWorker_kinds [simp]:
  "map kind (workers (snd (stopThreadedWorker ptr w))) = map kind (workers w)"
  by (auto simp add: stopThreadedWorker_def list_eq_iff_nth_eq nth_list_update split: option.split)

lemma seeded_with_drop:
  "seeded_with loc rot (drop n ws) = list_all (seeded_kind loc rot) (drop n (map kind ws))"
  by (simp add: seeded_with_def drop_map)

lemma seeded_with_stop [simp]:
  "seeded_with loc rot (drop n (workers (snd (stopThreadedWorker ptr w)))) =
   seeded_with loc rot (drop n (workers w))"
  by (simp add: seeded_with_drop)

lemma seeded_with_append [simp]:
  "seeded_with loc rot (xs @ ys) = (seeded_with loc rot xs \<and> seeded_with loc rot ys)"
  by (simp add: seeded_with_def)

lemma pose_stable:
  assumes "pose_kept loc rot n s" and "quiet s r"
  shows "outcome_sat (pose_kept loc rot n)
           (\<lambda>w. n \<le> length (workers w) \<and> seeded_with loc rot (drop n (workers w))) r"
proof (cases r)
  case (Inl x)
  with assms show ?thesis
    by (cases x) (simp add: quiet_def pose_kept_def)
next
  case (Inr s')
  with assms show ?thesis
    by (cases s') (simp add: quiet_def pose_kept_def)
qed

lemma pose_counter: "pose_kept loc rot n (p, w) \<Longrightarrow> pose_kept loc rot n (p, w\<lparr>count := c\<rparr>)"
  by (simp add: pose_kept_def)

lemma pose_read:
  assumes "pose_kept loc rot n (p, w)"
  shows "outcome_sat (pose_kept loc rot n)
           (\<lambda>w. n \<le> length (workers w) \<and> seeded_with loc rot (drop n (workers w)))
           (getKinematics inp (p, w))"
proof (cases "deref w (flightManager p)")
  case (Inl f)
  with assms show ?thesis
    by (simp add: getKinematics_fault pose_kept_def)
next
  case (Inr h)
  show ?thesis
  proof (cases "kin_crashed inp")
    case False
    with Inr assms show ?thesis
      by (simp add: getKinematics_flying pose_kept_def)
  next
    case True
    with Inr assms show ?thesis
      by (simp add: getKinematics_crashed pose_kept_def)
        (simp add: seeded_with_def seeded_kind_def)
  qed
qed

lemma pose_EndPlay: "pose_kept loc rot n s \<Longrightarrow> pose_kept loc rot n (EndPlay r s)"
  by (cases s) (simp add: EndPlay_def stopThreadedWorkers_eq pose_kept_def)

lemma pose_run:
  "pose_kept loc rot n s \<Longrightarrow>
   outcome_sat (pose_kept loc rot n)
     (\<lambda>w. n \<le> length (workers w) \<and> seeded_with loc rot (drop n (workers w))) (run calls s)"
  by (rule run_preserves, rule Tick_preserves, erule (1) pose_stable, erule pose_counter,
      erule pose_read, assumption, erule pose_EndPlay, assumption)

lemma BeginPlay_selected:
  "\<not> FString_Contains mapName ''Untitled'' \<Longrightarrow>
   BeginPlay mapName (p, w) =
     (p\<lparr>mapSelected := True, startLocation := actorLocation p, startRotation := actorRotation p,
        flightManager := Some (length (workers w)),
        videoManager := Some (Suc (length (workers w)))\<rparr>,
      w\<lparr>workers := workers w @
           [\<lparr>kind = FFlightManager (frame p) (params p) (actorLocation p) (actorRotation p),
             running = True\<rparr>,
            \<lparr>kind = FVideoManager (camera1RenderTarget p) (camera2RenderTarget p),
             running = True\<rparr>],
         trace := trace w @ [Play, Create (length (workers w)), Create (Suc (length (workers w))),
                             Super_BeginPlay]\<rparr>)"
  by (simp add: BeginPlay_def startThreadedWorkers_eq emit_def)

lemma BeginPlay_unselected:
  "FString_Contains mapName ''Untitled'' \<Longrightarrow>
   BeginPlay mapName (p, w) =
     (p\<lparr>mapSelected := False\<rparr>,
      w\<lparr>trace := trace w @ [Error ''NO MAP SELECTED'', Super_BeginPlay]\<rparr>)"
  by (simp add: BeginPlay_def emit_def)

lemma pose_BeginPlay:
  "\<not> FString_Contains mapName ''Untitled'' \<Longrightarrow>
   pose_kept (actorLocation p) (actorRotation p) (length (workers w)) (BeginPlay mapName (p, w))"
  by (simp add: BeginPlay_selected pose_kept_def seeded_with_def seeded_kind_def)

subsection \<open>The stop calls are safe\<close>

lemma stop_check_append:
  "stop_check st (xs @ ys) =
     (case stop_check st xs of None \<Rightarrow> None | Some st' \<Rightarrow> stop_check st' ys)"
  by (induction xs arbitrary: st) (simp_all split: option.split)

lemma stop_step_neutral: "neutral e \<Longrightarrow> stop_step st e = Some st"
  by (cases st; cases e) (simp_all add: neutral_def)

lemma stop_check_neutral: "list_all neutral es \<Longrightarrow> stop_check st es = Some st"
  by (induction es) (simp_all add: stop_step_neutral)

lemma tracked_safe: "handles_tracked s \<Longrightarrow> stops_safe (trace (snd s))"
  by (auto simp add: handles_tracked_def stops_safe_def split: option.splits)

lemma tracked_stable:
  assumes "handles_tracked s" and "quiet s r"
  shows "outcome_sat handles_tracked (\<lambda>w. stops_safe (trace w)) r"
proof -
  from assms(2) obtain es where
    es: "trace (outcome_world r) = trace (snd s) @ es" "list_all neutral es"
    and ws: "workers (outcome_world r) = workers (snd s)"
    by (auto simp add: quiet_def)
  from assms(1) obtain st where st: "stop_check ([], False) (trace (snd s)) = Some st"
    by (auto simp add: handles_tracked_def split: option.splits)
  have chk: "stop_check ([], False) (trace (outcome_world r)) = Some st"
    using es st by (simp add: stop_check_append stop_check_neutral)
  show ?thesis
  proof (cases r)
    case (Inl x)
    with chk show ?thesis by (cases x) (simp add: stops_safe_def)
  next
    case (Inr s')
    with assms(2) have "fst s' = fst s" by (simp add: quiet_def)
    with Inr chk ws st assms(1) show ?thesis
      by (cases s') (simp add: handles_tracked_def)
  qed
qed

lemma tracked_counter: "handles_tracked (p, w) \<Longrightarrow> handles_tracked (p, w\<lparr>count := c\<rparr>)"
  by (auto simp add: handles_tracked_def split: option.splits)

lemma list_all_removeAll: "list_all P xs \<Longrightarrow> list_all P (removeAll x xs)"
  by (simp add: list_all_iff)

lemma list_all_mono_less: "list_all (\<lambda>h. h < n) xs \<Longrightarrow> n \<le> m \<Longrightarrow> list_all (\<lambda>h. h < (m::nat)) xs"
  by (auto simp add: list_all_iff)

lemma tracked_read:
  assumes inv: "handles_tracked (p, w)" and sel: "mapSelected p"
  shows "outcome_sat handles_tracked (\<lambda>w. stops_safe (trace w)) (getKinematics inp (p, w))"
proof (cases "deref w (flightManager p)")
  case (Inl f)
  with inv show ?thesis
    by (simp add: getKinematics_fault) (use tracked_safe [OF inv] in simp)
next
  case (Inr h)
  then have fm: "flightManager p = Some h" by (simp add: deref_Some)
  from inv obtain live stopped where
    st: "stop_check ([], False) (trace w) = Some (live, stopped)"
    by (auto simp add: handles_tracked_def split: option.splits)
  with inv sel fm obtain b where
    vm: "videoManager p = Some b" and neq: "h \<noteq> b" and hl: "h \<in> set live" and bl: "b \<in> set live"
    and bound: "list_all (\<lambda>h. h < length (workers w)) live"
    by (auto simp add: handles_tracked_def split: option.splits)
  show ?thesis
  proof (cases "kin_crashed inp")
    case False
    with Inr st inv show ?thesis
      by (simp add: getKinematics_flying handles_tracked_def stop_check_append)
  next
    case True
    have "list_all (\<lambda>h. h < Suc (Suc (length (workers w)))) (removeAll b (removeAll h live))"
      by (rule list_all_mono_less [OF list_all_removeAll [OF list_all_removeAll [OF bound]]]) simp
    with True Inr st vm neq hl bl show ?thesis
      by (simp add: getKinematics_crashed handles_tracked_def stop_check_append)
  qed
qed

lemma tracked_EndPlay:
  assumes inv: "handles_tracked s"
  shows "handles_tracked (EndPlay r s)"
proof -
  obtain p w where s: "s = (p, w)" by (cases s)
  from inv s obtain live stopped where
    st: "stop_check ([], False) (trace w) = Some (live, stopped)"
    and bound: "list_all (\<lambda>h. h < length (workers w)) live"
    by (auto simp add: handles_tracked_def split: option.splits)
  show ?thesis
  proof (cases "mapSelected p")
    case False
    with inv s st show ?thesis
      by (simp add: EndPlay_unselected handles_tracked_def stop_check_append)
  next
    case True
    have b2: "\<And>a b. list_all (\<lambda>h. h < length (workers w)) (removeAll b (removeAll a live))"
      by (rule list_all_removeAll [OF list_all_removeAll [OF bound]])
    from True inv s st b2 bound show ?thesis
      by (auto simp add: EndPlay_def stopThreadedWorkers_eq handles_tracked_def stop_check_append
          split: option.splits)
  qed
qed

lemma tracked_run:
  "handles_tracked s \<Longrightarrow>
   outcome_sat handles_tracked (\<lambda>w. stops_safe (trace w)) (run calls s)"
  by (rule run_preserves, rule Tick_preserves, erule (1) tracked_stable, erule tracked_counter,
      erule (1) tracked_read, assumption, erule tracked_EndPlay, assumption)

lemma tracked_BeginPlay:
  "trace w = [] \<Longrightarrow> handles_tracked (BeginPlay mapName (p, w))"
  by (cases "FString_Contains mapName ''Untitled''")
     (simp_all add: BeginPlay_selected BeginPlay_unselected handles_tracked_def)

lemma outcome_sat_world:
  "outcome_sat I J r \<Longrightarrow> (\<And>s. I s \<Longrightarrow> J (snd s)) \<Longrightarrow> J (outcome_world r)"
  by (cases r) (auto simp add: outcome_sat_def outcome_world_def)

lemma example_flying_eq:
  "example_flying =
     (example_pawn\<lparr>mapSelected := True, startLocation := FVector (Finite False 1) (Finite False 2) (Finite False 3),
        startRotation := FRotator (Finite False 0) (Finite False 90) (Finite False 0), flightManager := Some 0, videoManager := Some 1\<rparr>,
      \<lparr>count = 11, rotation = Finite False 0,
       workers = [\<lparr>kind = FFlightManager example_frame () (FVector (Finite False 1) (Finite False 2) (Finite False 3)) (FRotator (Finite False 0) (Finite False 90) (Finite False 0)),
                   running = True\<rparr>,
                  \<lparr>kind = FVideoManager 100 101, running = True\<rparr>],
       trace = [Play, Create 0, Create 1, Super_BeginPlay]\<rparr>)"
  unfolding example_flying_def by (rule example_begun)

lemma example_flying_facts:
  "mapSelected (fst example_flying)"
  "10 < count (snd example_flying)"
  "deref (snd example_flying) (flightManager (fst example_flying)) = Inr 0"
  "deref (snd example_flying) (videoManager (fst example_flying)) = Inr 1"
  "propMeshes (fst example_flying) j \<noteq> None"
  "nmotors (frame (fst example_flying)) = 4"
  by (simp_all add: example_flying_eq deref_def example_pawn_def example_frame_def)

lemma deref_workers: "workers w' = workers w \<Longrightarrow> deref w' ptr = deref w ptr"
  by (simp add: deref_def split: option.split)

lemma motormean_sum:
  "fdiv (sum_motorvals (motorvals p) (nmotors (frame p)))
     (float_of_int (int (nmotors (frame p)))) = motormean p"
  by (simp add: motormean_def float_mean_def sum_motorvals_foldl)

lemma addAnimationEffects_eq:
  assumes "\<And>j. j < nmotors (frame p) \<Longrightarrow> propMeshes p j \<noteq> None"
    and "nmotors (frame p) \<le> 255"
  shows "addAnimationEffects (p, w) =
     Inr (p, w\<lparr>trace := trace w @ animation_events p (rotation w),
               rotation := next_rotation p (rotation w)\<rparr>)"
proof -
  let ?w1 = "setAudioPitchAndVolume (motormean p) w"
  have "rotate_props p [0..<nmotors (frame p)] ?w1 =
          Inr (?w1\<lparr>trace := trace ?w1 @ prop_events p (rotation ?w1)\<rparr>)"
    unfolding prop_events_def by (rule rotate_props_bound) (use assms in simp)
  then show ?thesis
    using assms(2)
    by (simp add: addAnimationEffects_def Let_def motormean_sum animation_events_def
        next_rotation_def setAudioPitchAndVolume_def emit_def)
qed

lemma setGimbal_eq:
  "deref w (flightManager p) = Inr h \<Longrightarrow>
   setGimbal inp (p, w) =
     Inr (p, emit (SetWorldRotation
                     (FRotator (fsub (Pitch (springArmRotation inp)) (gimbal_pitch inp))
                        (Yaw (springArmRotation inp))
                        (fadd (Roll (springArmRotation inp)) (gimbal_roll inp))))
               (emit (FM_getGimbal h) w))"
  by (simp add: setGimbal_def Let_def)

lemma grabCurrentImage_eq:
  "deref w (videoManager p) = Inr v \<Longrightarrow>
   grabCurrentImage (p, w) = Inr (p, emit (VM_grabCurrentImage v) w)"
  by (simp add: grabCurrentImage_def)

lemma debugMessage_eq:
  "deref w (flightManager p) = Inr h \<Longrightarrow>
   debugMessage inp (p, w) = Inr (p, emit (Debug h (message inp)) w)"
  by (simp add: debugMessage_def)

lemma rest_of_Tick_eq:
  assumes fm: "deref w (flightManager p) = Inr h" and vm: "deref w (videoManager p) = Inr v"
    and props: "\<And>j. j < nmotors (frame p) \<Longrightarrow> propMeshes p j \<noteq> None"
    and small: "nmotors (frame p) \<le> 255"
  shows "and_then (addAnimationEffects (p, w)) (\<lambda>s2.
         and_then (setGimbal inp s2) (\<lambda>s3.
         and_then (grabCurrentImage s3) (\<lambda>s4.
         and_then (debugMessage inp s4) (\<lambda>s5.
           Inr (fst s5, emit (Super_Tick (DeltaSeconds inp)) (snd s5)))))) =
     Inr (p, w\<lparr>trace := trace w @ animation_events p (rotation w) @ closing_events inp h v,
               rotation := next_rotation p (rotation w)\<rparr>)"
proof -
  let ?w2 = "w\<lparr>trace := trace w @ animation_events p (rotation w),
               rotation := next_rotation p (rotation w)\<rparr>"
  let ?w3 = "emit (SetWorldRotation
                     (FRotator (fsub (Pitch (springArmRotation inp)) (gimbal_pitch inp))
                        (Yaw (springArmRotation inp))
                        (fadd (Roll (springArmRotation inp)) (gimbal_roll inp))))
               (emit (FM_getGimbal h) ?w2)"
  let ?w4 = "emit (VM_grabCurrentImage v) ?w3"
  have a: "addAnimationEffects (p, w) = Inr (p, ?w2)"
    by (rule addAnimationEffects_eq [OF props small])
  have "deref ?w2 (flightManager p) = Inr h"
    using fm by (simp add: deref_workers [of ?w2 w])
  then have g: "setGimbal inp (p, ?w2) = Inr (p, ?w3)"
    by (rule setGimbal_eq)
  have "deref ?w3 (videoManager p) = Inr v"
    using vm by (simp add: deref_workers [of ?w3 w])
  then have i: "grabCurrentImage (p, ?w3) = Inr (p, ?w4)"
    by (rule grabCurrentImage_eq)
  have "deref ?w4 (flightManager p) = Inr h"
    using fm by (simp add: deref_workers [of ?w4 w])
  then have d: "debugMessage inp (p, ?w4) = Inr (p, emit (Debug h (message inp)) ?w4)"
    by (rule debugMessage_eq)
  show ?thesis
    by (simp only: a g i d and_then_simps fst_conv snd_conv)
       (simp add: emit_def closing_events_def)
qed

lemma Tick_flying:
  assumes "mapSelected p" and "10 < count w"
    and fm: "deref w (flightManager p) = Inr h" and vm: "deref w (videoManager p) = Inr v"
    and props: "\<And>j. j < nmotors (frame p) \<Longrightarrow> propMeshes p j \<noteq> None"
    and "\<not> kin_crashed inp"
    and small: "nmotors (frame p) \<le> 255"
  shows "Tick inp (p, w) =
     Inr (p\<lparr>motorvals := kin_motorvals inp, actorLocation := kin_location inp,
            actorRotation := kin_rotation inp\<rparr>,
          w\<lparr>count := count w + 1,
            trace := trace w @
              [FM_getKinematics h, SetActorLocation (kin_location inp),
               SetActorRotation (kin_rotation inp)] @
              animation_events (p\<lparr>motorvals := kin_motorvals inp\<rparr>) (rotation w) @
              closing_events inp h v,
            rotation := next_rotation (p\<lparr>motorvals := kin_motorvals inp\<rparr>) (rotation w)\<rparr>)"
proof -
  let ?p1 = "p\<lparr>motorvals := kin_motorvals inp, actorLocation := kin_location inp,
            actorRotation := kin_rotation inp\<rparr>"
  let ?w1 = "w\<lparr>count := count w + 1,
              trace := trace w @ [FM_getKinematics h, SetActorLocation (kin_location inp),
                                 SetActorRotation (kin_rotation inp)]\<rparr>"
  have gk: "getKinematics inp (p, w\<lparr>count := count w + 1\<rparr>) = Inr (?p1, ?w1)"
    using fm \<open>\<not> kin_crashed inp\<close> by (simp add: getKinematics_flying)
  have fm1: "deref ?w1 (flightManager ?p1) = Inr h"
    using fm by (simp add: deref_workers [of ?w1 w])
  have vm1: "deref ?w1 (videoManager ?p1) = Inr v"
    using vm by (simp add: deref_workers [of ?w1 w])
  have props1: "\<And>j. j < nmotors (frame ?p1) \<Longrightarrow> propMeshes ?p1 j \<noteq> None"
    using props by simp
  have small1: "nmotors (frame ?p1) \<le> 255" using small by simp
  have mm: "next_rotation ?p1 = next_rotation (p\<lparr>motorvals := kin_motorvals inp\<rparr>)"
    "animation_events ?p1 = animation_events (p\<lparr>motorvals := kin_motorvals inp\<rparr>)"
    by (simp_all add: motormean_def next_rotation_def animation_events_def prop_events_def
        fun_eq_iff)
  show ?thesis
    using assms(1,2)
    by (simp only: Tick_gated gk and_then_simps rest_of_Tick_eq [OF fm1 vm1 props1 small1] mm)
       simp
qed

lemma Tick_crashed:
  assumes "mapSelected p" and "10 < count w"
    and fm: "deref w (flightManager p) = Inr h" and vm: "deref w (videoManager p) = Inr v"
    and props: "\<And>j. j < nmotors (frame p) \<Longrightarrow> propMeshes p j \<noteq> None"
    and "kin_crashed inp"
    and small: "nmotors (frame p) \<le> 255"
  shows "\<exists>w'. Tick inp (p, w) =
     Inr (p\<lparr>motorvals := kin_motorvals inp,
            flightManager := Some (length (workers w)),
            videoManager := Some (Suc (length (workers w))),
            actorLocation := kin_location inp, actorRotation := kin_rotation inp\<rparr>, w') \<and>
     trace w' = trace w @
              [FM_getKinematics h, Stop (Some h), Stop (Some v),
               Create (length (workers w)), Create (Suc (length (workers w))),
               SetActorLocation (kin_location inp), SetActorRotation (kin_rotation inp)] @
              animation_events (p\<lparr>motorvals := kin_motorvals inp\<rparr>) (rotation w) @
              closing_events inp (length (workers w)) (Suc (length (workers w))) \<and>
     count w' = count w + 1 \<and>
     rotation w' = next_rotation (p\<lparr>motorvals := kin_motorvals inp\<rparr>) (rotation w) \<and>
     deref w' (Some (length (workers w))) = Inr (length (workers w)) \<and>
     deref w' (Some (Suc (length (workers w)))) = Inr (Suc (length (workers w)))"
proof -
  let ?n = "length (workers w)"
  let ?w0 = "w\<lparr>count := count w + 1\<rparr>"
  from fm vm have fmv: "flightManager p = Some h" "videoManager p = Some v"
    by (auto dest: deref_Some)
  have fm0: "deref ?w0 (flightManager p) = Inr h" using fm by simp
  obtain p1 w1 where gk: "getKinematics inp (p, ?w0) = Inr (p1, w1)"
    and p1: "p1 = p\<lparr>motorvals := kin_motorvals inp, flightManager := Some ?n,
            videoManager := Some (Suc ?n),
            actorLocation := kin_location inp, actorRotation := kin_rotation inp\<rparr>"
    and t1: "trace w1 = trace w @
              [FM_getKinematics h, Stop (Some h), Stop (Some v), Create ?n, Create (Suc ?n),
               SetActorLocation (kin_location inp), SetActorRotation (kin_rotation inp)]"
    and c1: "count w1 = count w + 1" and r1: "rotation w1 = rotation w"
    and l1: "length (workers w1) = ?n + 2"
    and n1: "running (workers w1 ! ?n)" "running (workers w1 ! Suc ?n)"
    using getKinematics_crashed [OF fm0 \<open>kin_crashed inp\<close>] fmv
    by (simp add: nth_append)
  have fm1: "deref w1 (flightManager p1) = Inr ?n"
    and vm1: "deref w1 (videoManager p1) = Inr (Suc ?n)"
    using p1 l1 n1 by (simp_all add: deref_def)
  have props1: "\<And>j. j < nmotors (frame p1) \<Longrightarrow> propMeshes p1 j \<noteq> None"
    using props p1 by simp
  have small1: "nmotors (frame p1) \<le> 255" using small p1 by simp
  have mm: "next_rotation p1 = next_rotation (p\<lparr>motorvals := kin_motorvals inp\<rparr>)"
    "animation_events p1 = animation_events (p\<lparr>motorvals := kin_motorvals inp\<rparr>)"
    unfolding p1
    by (simp_all add: motormean_def next_rotation_def animation_events_def prop_events_def
        fun_eq_iff)
  have d: "deref (w1\<lparr>trace := t, rotation := r\<rparr>) ptr = deref w1 ptr" for t r ptr
    by (rule deref_workers) simp
  show ?thesis
    using assms(1,2) fm1 vm1
    by (simp only: Tick_gated gk and_then_simps rest_of_Tick_eq [OF fm1 vm1 props1 small1] mm)
       (simp add: p1 t1 c1 r1 d)
qed

lemma no_read_in_animation: "filter is_kinematics_read (animation_events p r) = []"
  by (simp add: animation_events_def prop_events_def is_kinematics_read_def filter_map comp_def)

lemma no_read_in_closing: "filter is_kinematics_read (closing_events inp h v) = []"
  by (simp add: closing_events_def is_kinematics_read_def)

lemma animation_events_audio:
  "SetFloatParameter ''pitch'' (motormean p) \<in> set (animation_events p r)"
  "SetFloatParameter ''volume'' (motormean p) \<in> set (animation_events p r)"
  "fgt (motormean p) (float_of_int 0) \<Longrightarrow>
     set (prop_events p r) \<subseteq> set (animation_events p r)"
  by (auto simp add: animation_events_def)

lemma motormean_read:
  "motormean (p\<lparr>motorvals := mv\<rparr>) = float_mean mv (nmotors (frame p))"
  by (simp add: motormean_def)

lemma prop_events_nth:
  "length (prop_events p r) = nmotors (frame p)"
  "j < nmotors (frame p) \<Longrightarrow>
   prop_events p r ! j =
     SetRelativeRotation (the (propMeshes p j))
       (FRotator (float_of_int 0)
          (fmul (fmul r (float_of_int (motordirs (frame p) j))) (float_of_int 100))
          (float_of_int 0))"
  by (simp_all add: prop_events_def)

subsection \<open>The tick counter\<close>

lemma getKinematics_count:
  "outcome_sat (\<lambda>s. mapSelected (fst s) = mapSelected p \<and> count (snd s) = count w)
     (\<lambda>w'. count w' = count w) (getKinematics inp (p, w))"
proof (cases "deref w (flightManager p)")
  case (Inl f)
  then show ?thesis by (simp add: getKinematics_fault)
next
  case (Inr h)
  then show ?thesis
    by (cases "kin_crashed inp") (simp_all add: getKinematics_flying getKinematics_crashed)
qed

lemma quiet_count:
  "quiet s r \<Longrightarrow>
   outcome_sat (\<lambda>s'. mapSelected (fst s') = mapSelected (fst s) \<and> count (snd s') = count (snd s))
     (\<lambda>w'. count w' = count (snd s)) r"
  by (cases r) (auto simp add: quiet_def)

lemma Tick_count:
  "outcome_sat
     (\<lambda>s'. mapSelected (fst s') = mapSelected p \<and>
            count (snd s') = (if mapSelected p then count w + 1 else count w))
     (\<lambda>w'. count w' = (if mapSelected p then count w + 1 else count w))
     (Tick inp (p, w))"
proof (cases "mapSelected p \<and> 10 < count w")
  case True
  let ?I = "\<lambda>s'. mapSelected (fst s') = mapSelected p \<and> count (snd s') = count w + 1"
  let ?J = "\<lambda>w'. count w' = count w + 1"
  have gk: "outcome_sat ?I ?J (getKinematics inp (p, w\<lparr>count := count w + 1\<rparr>))"
    using getKinematics_count [of p "w\<lparr>count := count w + 1\<rparr>" inp] by simp
  have rest: "outcome_sat ?I ?J
     (and_then (addAnimationEffects s1) (\<lambda>s2.
      and_then (setGimbal inp s2) (\<lambda>s3.
      and_then (grabCurrentImage s3) (\<lambda>s4.
      and_then (debugMessage inp s4) (\<lambda>s5.
        Inr (fst s5, emit (Super_Tick (DeltaSeconds inp)) (snd s5)))))))"
    if "?I s1" for s1 :: "'a AVehiclePawn \<times> 'a world"
    using quiet_count [OF rest_of_Tick_quiet [of s1 inp]] that by simp
  from True have eq: "Tick inp (p, w) =
     and_then (getKinematics inp (p, w\<lparr>count := count w + 1\<rparr>)) (\<lambda>s1.
     and_then (addAnimationEffects s1) (\<lambda>s2.
     and_then (setGimbal inp s2) (\<lambda>s3.
     and_then (grabCurrentImage s3) (\<lambda>s4.
     and_then (debugMessage inp s4) (\<lambda>s5.
       Inr (fst s5, emit (Super_Tick (DeltaSeconds inp)) (snd s5)))))))"
    by (simp add: Tick_gated)
  have "outcome_sat ?I ?J (Tick inp (p, w))"
    unfolding eq by (rule outcome_sat_and_then [OF gk rest])
  with True show ?thesis by simp
next
  case False
  then show ?thesis
    by (cases "mapSelected p") (simp_all add: Tick_early Tick_unselected)
qed

lemma Tick_count_world:
  "count (outcome_world (Tick inp (p, w))) = (if mapSelected p then count w + 1 else count w)"
  by (rule outcome_sat_world [OF Tick_count]) simp

lemma ticks_count:
  "mapSelected p \<Longrightarrow> run (map CallTick inps) (p, w) = Inr (p', w') \<Longrightarrow>
   count w' = count w + of_nat (length inps)"
proof (induction inps arbitrary: p w)
  case Nil
  then show ?case by simp
next
  case (Cons i inps)
  from Cons.prems(2) obtain p1 w1 where
    t: "Tick i (p, w) = Inr (p1, w1)" and r: "run (map CallTick inps) (p1, w1) = Inr (p', w')"
    by (cases "Tick i (p, w)") auto
  from Tick_count [of p w i] t Cons.prems(1)
  have "mapSelected p1" "count w1 = count w + 1" by simp_all
  with Cons.IH [OF _ r] show ?case by simp
qed

lemma Tick_read_iff:
  assumes "mapSelected p" and fm: "deref w (flightManager p) = Inr h"
  shows "(\<exists>es. trace (outcome_world (Tick inp (p, w))) = trace w @ FM_getKinematics h # es)
         = (10 < count w)"
proof (cases "10 < count w")
  case False
  with assms(1) have "trace (outcome_world (Tick inp (p, w))) = trace w @ [Super_Tick (DeltaSeconds inp)]"
    by (simp add: Tick_early)
  with False show ?thesis by simp
next
  case True
  let ?w0 = "w\<lparr>count := count w + 1\<rparr>"
  have fm0: "deref ?w0 (flightManager p) = Inr h" using fm by simp
  obtain p1 w1 es1 where gk: "getKinematics inp (p, ?w0) = Inr (p1, w1)"
    and t1: "trace w1 = trace w @ FM_getKinematics h # es1"
    using getKinematics_flying [OF fm0, of inp] getKinematics_crashed [OF fm0, of inp]
    by (cases "kin_crashed inp") auto
  let ?r = "and_then (addAnimationEffects (p1, w1)) (\<lambda>s2.
      and_then (setGimbal inp s2) (\<lambda>s3.
      and_then (grabCurrentImage s3) (\<lambda>s4.
      and_then (debugMessage inp s4) (\<lambda>s5.
        Inr (fst s5, emit (Super_Tick (DeltaSeconds inp)) (snd s5))))))"
  have "quiet (p1, w1) ?r" by (rule rest_of_Tick_quiet)
  then obtain es where "trace (outcome_world ?r) = trace w1 @ es"
    by (auto simp add: quiet_def)
  with t1 have "trace (outcome_world ?r) = trace w @ FM_getKinematics h # (es1 @ es)" by simp
  moreover have "Tick inp (p, w) = ?r"
    using assms(1) True by (simp add: Tick_gated gk)
  ultimately show ?thesis using True by auto
qed

lemma example_two:
  "mapSelected (fst example_first)" "mapSelected (fst example_second)"
  "count (snd example_second) = 0"
  "flightManager (fst example_first) = Some 0"
  "flightManager (fst example_second) = Some 2"
  "deref (snd example_second) (Some 2) = Inr 2"
  by (simp_all add: example_first_def example_second_def BeginPlay_def FString_Contains_def
      ToUpper_def startThreadedWorkers_eq example_pawn_def example_world_def emit_def deref_def)

subsection \<open>The map name\<close>

lemma Strnicmp_eq_prefix: "Strnicmp_eq sub s = prefix (map ToUpper sub) (map ToUpper s)"
  by (induction sub s rule: Strnicmp_eq.induct) auto

lemma Stristr_sublist:
  "sub \<noteq> [] \<Longrightarrow> Stristr s sub = sublist (map ToUpper sub) (map ToUpper s)"
proof (induction s)
  case Nil
  then show ?case by simp
next
  case (Cons c cs)
  then show ?case
    by (cases sub) (auto simp add: Strnicmp_eq_prefix sublist_Cons_right)
qed

lemma FString_Contains_Untitled:
  "FString_Contains mapName ''Untitled'' =
   sublist (map ToUpper ''Untitled'') (map ToUpper mapName)"
  unfolding FString_Contains_def by (rule Stristr_sublist) simp

subsection \<open>A play keeps both workers running\<close>

lemma Tick_keeps_running:
  assumes sel: "mapSelected p"
    and fm: "deref w (flightManager p) = Inr h" and vm: "deref w (videoManager p) = Inr v"
    and props: "\<And>j. j < nmotors (frame p) \<Longrightarrow> propMeshes p j \<noteq> None"
    and small: "nmotors (frame p) \<le> 255"
  shows "\<exists>p' w' h' v'. Tick inp (p, w) = Inr (p', w') \<and> mapSelected p' \<and>
           deref w' (flightManager p') = Inr h' \<and> deref w' (videoManager p') = Inr v' \<and>
           frame p' = frame p \<and> propMeshes p' = propMeshes p"
proof (cases "10 < count w")
  case False
  then have le: "count w \<le> 10" by simp
  let ?w' = "emit (Super_Tick (DeltaSeconds inp)) (w\<lparr>count := count w + 1\<rparr>)"
  have "deref ?w' ptr = deref w ptr" for ptr by (rule deref_workers) simp
  with Tick_early [OF sel le, of inp] sel fm vm show ?thesis by simp
next
  case True
  show ?thesis
  proof (cases "kin_crashed inp")
    case False
    let ?w' = "w\<lparr>count := count w + 1,
            trace := trace w @
              [FM_getKinematics h, SetActorLocation (kin_location inp),
               SetActorRotation (kin_rotation inp)] @
              animation_events (p\<lparr>motorvals := kin_motorvals inp\<rparr>) (rotation w) @
              closing_events inp h v,
            rotation := next_rotation (p\<lparr>motorvals := kin_motorvals inp\<rparr>) (rotation w)\<rparr>"
    have "deref ?w' ptr = deref w ptr" for ptr by (rule deref_workers) simp
    with Tick_flying [OF sel True fm vm props False small] sel fm vm show ?thesis by simp
  next
    case crashed: True
    have "\<forall>j<nmotors (frame p). propMeshes p j \<noteq> None" using props by simp
    then obtain w' where
      t: "Tick inp (p, w) =
           Inr (p\<lparr>motorvals := kin_motorvals inp,
                  flightManager := Some (length (workers w)),
                  videoManager := Some (Suc (length (workers w))),
                  actorLocation := kin_location inp, actorRotation := kin_rotation inp\<rparr>, w')"
      and d: "deref w' (Some (length (workers w))) = Inr (length (workers w))"
             "deref w' (Some (Suc (length (workers w)))) = Inr (Suc (length (workers w)))"
      using Tick_crashed [OF sel True fm vm _ crashed small] by blast
    from t d sel show ?thesis by simp
  qed
qed

lemma ticks_keep_running:
  assumes "mapSelected p"
    and "deref w (flightManager p) = Inr h" and "deref w (videoManager p) = Inr v"
    and "\<And>j. j < nmotors (frame p) \<Longrightarrow> propMeshes p j \<noteq> None"
    and "nmotors (frame p) \<le> 255"
  shows "\<exists>p' w' h' v'. run (map CallTick inps) (p, w) = Inr (p', w') \<and> mapSelected p' \<and>
           deref w' (flightManager p') = Inr h' \<and> deref w' (videoManager p') = Inr v' \<and>
           frame p' = frame p \<and> propMeshes p' = propMeshes p"
  using assms
proof (induction inps arbitrary: p w h v)
  case Nil
  then show ?case by simp
next
  case (Cons i inps)
  from Tick_keeps_running [OF Cons.prems(1-3) _ Cons.prems(5), of i] Cons.prems(4)
  obtain p1 w1 h1 v1 where t: "Tick i (p, w) = Inr (p1, w1)" and s1: "mapSelected p1"
    and f1: "deref w1 (flightManager p1) = Inr h1" and v1: "deref w1 (videoManager p1) = Inr v1"
    and fr: "frame p1 = frame p" and pm: "propMeshes p1 = propMeshes p"
    by blast
  have pr: "\<And>j. j < nmotors (frame p1) \<Longrightarrow> propMeshes p1 j \<noteq> None"
    using Cons.prems(4) fr pm by simp
  have sm: "nmotors (frame p1) \<le> 255" using Cons.prems(5) fr by simp
  from Cons.IH [OF s1 f1 v1 pr sm] t fr pm show ?case by simp
qed

lemma play_keeps_running:
  assumes "\<not> FString_Contains mapName ''Untitled''"
    and "\<And>j. j < nmotors (frame p0) \<Longrightarrow> propMeshes p0 j \<noteq> None"
    and "nmotors (frame p0) \<le> 255"
  shows "\<exists>p w h v. run (map CallTick inps) (BeginPlay mapName (p0, w0)) = Inr (p, w) \<and>
           mapSelected p \<and>
           deref w (flightManager p) = Inr h \<and> deref w (videoManager p) = Inr v \<and>
           frame p = frame p0 \<and> propMeshes p = propMeshes p0"
proof -
  let ?p = "p0\<lparr>mapSelected := True, startLocation := actorLocation p0,
        startRotation := actorRotation p0,
        flightManager := Some (length (workers w0)),
        videoManager := Some (Suc (length (workers w0)))\<rparr>"
  let ?w = "w0\<lparr>workers := workers w0 @
           [\<lparr>kind = FFlightManager (frame p0) (params p0) (actorLocation p0) (actorRotation p0),
             running = True\<rparr>,
            \<lparr>kind = FVideoManager (camera1RenderTarget p0) (camera2RenderTarget p0),
             running = True\<rparr>],
         trace := trace w0 @ [Play, Create (length (workers w0)), Create (Suc (length (workers w0))),
                             Super_BeginPlay]\<rparr>"
  have b: "BeginPlay mapName (p0, w0) = (?p, ?w)"
    by (rule BeginPlay_selected [OF assms(1)])
  have s: "mapSelected ?p" by simp
  have f: "deref ?w (flightManager ?p) = Inr (length (workers w0))"
    and v: "deref ?w (videoManager ?p) = Inr (Suc (length (workers w0)))"
    by (simp_all add: deref_def nth_append)
  have pr: "\<And>j. j < nmotors (frame ?p) \<Longrightarrow> propMeshes ?p j \<noteq> None"
    using assms(2) by simp
  have sm: "nmotors (frame ?p) \<le> 255" using assms(3) by simp
  from ticks_keep_running [OF s f v pr sm, of inps] show ?thesis
    unfolding b by simp
qed

subsection \<open>The effects of a guarded tick\<close>

lemma gated_Tick_effects:
  assumes "mapSelected p" and "10 < count w"
    and "deref w (flightManager p) = Inr h" and "deref w (videoManager p) = Inr v"
    and "\<forall>j<nmotors (frame p). propMeshes p j \<noteq> None"
    and small: "nmotors (frame p) \<le> 255"
  shows "\<exists>p' w' es.
     Tick inp (p, w) = Inr (p', w') \<and> trace w' = trace w @ es \<and>
     hd es = FM_getKinematics h \<and>
     length (filter is_kinematics_read es) = 1 \<and>
     actorLocation p' = kin_location inp \<and> actorRotation p' = kin_rotation inp \<and>
     SetActorLocation (kin_location inp) \<in> set es \<and>
     SetActorRotation (kin_rotation inp) \<in> set es \<and>
     motorvals p' = kin_motorvals inp \<and>
     SetFloatParameter ''pitch'' (float_mean (kin_motorvals inp) (nmotors (frame p))) \<in> set es \<and>
     SetFloatParameter ''volume'' (float_mean (kin_motorvals inp) (nmotors (frame p))) \<in> set es \<and>
     (fgt (float_mean (kin_motorvals inp) (nmotors (frame p))) (float_of_int 0) \<longrightarrow>
        set (prop_events (p\<lparr>motorvals := kin_motorvals inp\<rparr>) (rotation w)) \<subseteq> set es) \<and>
     (\<not> fgt (float_mean (kin_motorvals inp) (nmotors (frame p))) (float_of_int 0) \<longrightarrow>
        rotation w' = rotation w \<and>
        (\<forall>mesh r. SetRelativeRotation mesh r \<notin> set es))"
proof -
  from assms(5) have props: "\<And>j. j < nmotors (frame p) \<Longrightarrow> propMeshes p j \<noteq> None"
    by simp
  let ?q = "p\<lparr>motorvals := kin_motorvals inp\<rparr>"
  note audio = animation_events_audio [of ?q "rotation w", unfolded motormean_read]
  have still: "animation_events ?q (rotation w) =
      [SetFloatParameter ''pitch'' (float_mean (kin_motorvals inp) (nmotors (frame p))),
       SetFloatParameter ''volume'' (float_mean (kin_motorvals inp) (nmotors (frame p)))]"
    "next_rotation ?q (rotation w) = rotation w"
    if "\<not> fgt (float_mean (kin_motorvals inp) (nmotors (frame p))) (float_of_int 0)"
    using that by (simp_all add: animation_events_def next_rotation_def motormean_read)
  show ?thesis
  proof (cases "kin_crashed inp")
    case False
    let ?es = "[FM_getKinematics h, SetActorLocation (kin_location inp),
               SetActorRotation (kin_rotation inp)] @
              animation_events ?q (rotation w) @ closing_events inp h v"
    have cnt: "length (filter is_kinematics_read ?es) = 1"
      by (simp add: no_read_in_animation no_read_in_closing) (simp add: is_kinematics_read_def)
    have none: "\<forall>mesh r. SetRelativeRotation mesh r \<notin> set ?es"
      if "\<not> fgt (float_mean (kin_motorvals inp) (nmotors (frame p))) (float_of_int 0)"
      using still(1) [OF that] by (simp add: closing_events_def)
    from Tick_flying [OF assms(1-4) props False small] cnt audio still(2) none show ?thesis
      by (intro exI [of _ ?es] exI conjI) (simp, simp_all, blast)
  next
    case True
    let ?es = "[FM_getKinematics h, Stop (Some h), Stop (Some v),
               Create (length (workers w)), Create (Suc (length (workers w))),
               SetActorLocation (kin_location inp), SetActorRotation (kin_rotation inp)] @
              animation_events ?q (rotation w) @
              closing_events inp (length (workers w)) (Suc (length (workers w)))"
    have cnt: "length (filter is_kinematics_read ?es) = 1"
      by (simp add: no_read_in_animation no_read_in_closing) (simp add: is_kinematics_read_def)
    have none: "\<forall>mesh r. SetRelativeRotation mesh r \<notin> set ?es"
      if "\<not> fgt (float_mean (kin_motorvals inp) (nmotors (frame p))) (float_of_int 0)"
      using still(1) [OF that] by (simp add: closing_events_def)
    from Tick_crashed [OF assms(1-4) props True small] obtain w' where
      t: "Tick inp (p, w) =
           Inr (p\<lparr>motorvals := kin_motorvals inp,
                  flightManager := Some (length (workers w)),
                  videoManager := Some (Suc (length (workers w))),
                  actorLocation := kin_location inp, actorRotation := kin_rotation inp\<rparr>, w')"
      and tr: "trace w' = trace w @ ?es"
      and ro: "rotation w' = next_rotation ?q (rotation w)"
      by blast
    from t tr ro cnt audio still(2) none show ?thesis
      by (intro exI [of _ ?es] exI conjI) (simp, simp_all, blast)
  qed
qed

subsection \<open>Single-precision means of the example motor values\<close>

lemma tenths_values:
  "map example_tenths [0..<4] =
     [Finite False (13421773 / 134217728), Finite False (13421773 / 67108864),
      Finite False (5033165 / 16777216), Finite False (13421773 / 33554432)]"
  by code_simp

lemma tenths_mean:
  "float_mean example_tenths 4 = Finite False (1 / 4)"
  "arithmetic_mean example_tenths 4 = Some (134217731 / 536870912)"
  "fgt (Finite False (1 / 4)) (float_of_int 0)"
  by code_simp+

lemma tiny_mean:
  "float_mean example_tiny 4 = Finite False 0"
  "arithmetic_mean example_tiny 4 = Some (pow2 (- 151))"
  "\<not> fgt (Finite False 0) (float_of_int 0)"
  by code_simp+

lemma example_means:
  "float_mean (\<lambda>j. Finite False (1 / 2)) 4 = Finite False (1 / 2)"
  "fgt (Finite False (1 / 2)) (float_of_int 0)"
  "float_mean (\<lambda>j. Finite False 0) 4 = Finite False 0"
  "float_mean mv 0 = NaN"
  "\<not> fgt NaN x"
  by (code_simp, code_simp, code_simp, simp add: float_mean_def float_of_int_def fl_exact_def fl_def round_mag_def, simp)

lemma float_of_int_values:
  "float_of_int 0 = Finite False 0" "float_of_int 1 = Finite False 1"
  "float_of_int 100 = Finite False 100" "float_of_int (- 1) = Finite True 1"
  by code_simp+

text \<open>Two roundings the animation meets: the yaw \<open>671089 * 1 * 100\<close> is not a binary32
  number, and \<^verbatim>\<open>rotation++\<close> no longer changes \<^verbatim>\<open>rotation\<close> once it has reached \<open>2 ^ 24\<close>.\<close>

lemma rounding_examples:
  "fmul (fmul (Finite False 671089) (float_of_int 1)) (float_of_int 100) = Finite False 67108896"
  "fadd (Finite False 16777216) (float_of_int 1) = Finite False 16777216"
  "fadd (Finite False 16777215) (float_of_int 1) = Finite False 16777216"
  "fmul (Finite False (2 ^ 127)) (float_of_int 2) = Infinity False"
  "fdiv (Finite False (pow2 (- 149))) (float_of_int 4) = Finite False 0"
  by code_simp+

lemma cancel_mean:
  "float_mean example_cancel 4 = Finite False (1 / 4)"
  "arithmetic_mean example_cancel 4 = Some 0"
  by code_simp+

lemma turning_values:
  "fadd (Finite False 3) (float_of_int 1) = Finite False 4"
  "fmul (fmul (Finite False 3) (float_of_int (- 1))) (float_of_int 100) = Finite True 300"
  "fmul (fmul (Finite False 3) (float_of_int 1)) (float_of_int 100) = Finite False 300"
  by code_simp+

lemma turning_props0:
  "prop_events (fst example_flying) (Finite False 3) =
     [SetRelativeRotation 0 (FRotator (Finite False 0) (Finite True 300) (Finite False 0)),
      SetRelativeRotation 1 (FRotator (Finite False 0) (Finite True 300) (Finite False 0)),
      SetRelativeRotation 2 (FRotator (Finite False 0) (Finite False 300) (Finite False 0)),
      SetRelativeRotation 3 (FRotator (Finite False 0) (Finite False 300) (Finite False 0))]"
  by code_simp

lemma turning_props:
  "prop_events (example_with mv) (Finite False 3) =
     [SetRelativeRotation 0 (FRotator (Finite False 0) (Finite True 300) (Finite False 0)),
      SetRelativeRotation 1 (FRotator (Finite False 0) (Finite True 300) (Finite False 0)),
      SetRelativeRotation 2 (FRotator (Finite False 0) (Finite False 300) (Finite False 0)),
      SetRelativeRotation 3 (FRotator (Finite False 0) (Finite False 300) (Finite False 0))]"
  unfolding turning_props0 [symmetric] by (simp add: prop_events_def example_with_def)


lemma example_with_facts:
  "nmotors (frame (example_with mv)) = 4"
  "propMeshes (example_with mv) = (\<lambda>j. Some j)"
  "motorvals (example_with mv) = mv"
  "rotation example_turning = Finite False 3"
  "nmotors (frame example_wide) = 256"
  by (simp_all add: example_with_def example_turning_def example_wide_def example_flying_eq
      example_pawn_def example_frame_def)

lemma example_with_spins:
  assumes "float_mean mv 4 = m" and "fgt m (float_of_int 0)"
  shows "addAnimationEffects (example_with mv, example_turning) =
     Inr (example_with mv,
          example_turning\<lparr>trace := trace example_turning @
            [SetFloatParameter ''pitch'' m, SetFloatParameter ''volume'' m,
             SetRelativeRotation 0 (FRotator (Finite False 0) (Finite True 300) (Finite False 0)),
             SetRelativeRotation 1 (FRotator (Finite False 0) (Finite True 300) (Finite False 0)),
             SetRelativeRotation 2 (FRotator (Finite False 0) (Finite False 300) (Finite False 0)),
             SetRelativeRotation 3 (FRotator (Finite False 0) (Finite False 300) (Finite False 0))],
            rotation := Finite False 4\<rparr>)"
proof -
  have "addAnimationEffects (example_with mv, example_turning) =
     Inr (example_with mv,
          example_turning\<lparr>trace := trace example_turning @
              animation_events (example_with mv) (rotation example_turning),
            rotation := next_rotation (example_with mv) (rotation example_turning)\<rparr>)"
    by (rule addAnimationEffects_eq) (simp_all add: example_with_facts)
  then show ?thesis
    using assms
    by (simp add: animation_events_def next_rotation_def motormean_def example_with_facts
        turning_props turning_values)
qed

section \<open>Properties of the pawn and of the frame class\<close>

text \<open>
  \<^bold>\<open>C1.\<close> A kinematics read that reports a crash, made while both workers are running,
  stops both workers and creates two new ones; the new flight manager is created with
  the pawn's stored start location and rotation, which the read leaves as they were.
  After a \<^verbatim>\<open>BeginPlay\<close> that selects the map, whatever calls of \<^verbatim>\<open>Tick\<close> and \<^verbatim>\<open>EndPlay\<close>
  follow, the stored start pose stays the actor's pose at \<^verbatim>\<open>BeginPlay\<close>, and every
  flight manager created during the execution, also by a restart after a crash, was
  created with that pose.
\<close>

theorem crash_restart_uses_start_pose:
  "(kin_crashed inp \<and> deref w (flightManager p) = Inr h \<and> deref w (videoManager p) = Inr v \<longrightarrow>
      (\<exists>p' w'. getKinematics inp (p, w) = Inr (p', w') \<and>
         trace w' = trace w @
           [FM_getKinematics h, Stop (Some h), Stop (Some v),
            Create (length (workers w)), Create (Suc (length (workers w))),
            SetActorLocation (kin_location inp), SetActorRotation (kin_rotation inp)] \<and>
         flightManager p' = Some (length (workers w)) \<and>
         videoManager p' = Some (Suc (length (workers w))) \<and>
         length (workers w') = length (workers w) + 2 \<and>
         workers w' ! length (workers w) =
           \<lparr>kind = FFlightManager (frame p) (params p) (startLocation p) (startRotation p),
            running = True\<rparr> \<and>
         workers w' ! Suc (length (workers w)) =
           \<lparr>kind = FVideoManager (camera1RenderTarget p) (camera2RenderTarget p),
            running = True\<rparr> \<and>
         \<not> running (workers w' ! h) \<and> \<not> running (workers w' ! v) \<and>
         startLocation p' = startLocation p \<and> startRotation p' = startRotation p)) \<and>
   (\<not> FString_Contains mapName ''Untitled'' \<longrightarrow>
      seeded_with (actorLocation p0) (actorRotation p0)
        (drop (length (workers w0))
           (workers (outcome_world (run calls (BeginPlay mapName (p0, w0)))))) \<and>
      (\<forall>p' w'. run calls (BeginPlay mapName (p0, w0)) = Inr (p', w') \<longrightarrow>
         startLocation p' = actorLocation p0 \<and> startRotation p' = actorRotation p0))"
proof (intro conjI impI)
  assume a: "kin_crashed inp \<and> deref w (flightManager p) = Inr h \<and>
             deref w (videoManager p) = Inr v"
  then have fm: "flightManager p = Some h" "h < length (workers w)"
    and vm: "videoManager p = Some v" "v < length (workers w)"
    by (auto dest: deref_Some)
  let ?ws = "snd (stopThreadedWorker (Some v)
               (snd (stopThreadedWorker (Some h) (emit (FM_getKinematics h) w))))"
  have len: "length (workers ?ws) = length (workers w)" by simp
  have stopped: "\<not> running (workers ?ws ! h)" "\<not> running (workers ?ws ! v)"
    using fm vm by (simp_all add: stopThreadedWorker_running)
  from a fm vm len stopped
  show "\<exists>p' w'. getKinematics inp (p, w) = Inr (p', w') \<and>
         trace w' = trace w @
           [FM_getKinematics h, Stop (Some h), Stop (Some v),
            Create (length (workers w)), Create (Suc (length (workers w))),
            SetActorLocation (kin_location inp), SetActorRotation (kin_rotation inp)] \<and>
         flightManager p' = Some (length (workers w)) \<and>
         videoManager p' = Some (Suc (length (workers w))) \<and>
         length (workers w') = length (workers w) + 2 \<and>
         workers w' ! length (workers w) =
           \<lparr>kind = FFlightManager (frame p) (params p) (startLocation p) (startRotation p),
            running = True\<rparr> \<and>
         workers w' ! Suc (length (workers w)) =
           \<lparr>kind = FVideoManager (camera1RenderTarget p) (camera2RenderTarget p),
            running = True\<rparr> \<and>
         \<not> running (workers w' ! h) \<and> \<not> running (workers w' ! v) \<and>
         startLocation p' = startLocation p \<and> startRotation p' = startRotation p"
    by (simp add: getKinematics_crashed nth_append)
next
  assume sel: "\<not> FString_Contains mapName ''Untitled''"
  let ?J = "\<lambda>w. length (workers w0) \<le> length (workers w) \<and>
                seeded_with (actorLocation p0) (actorRotation p0)
                  (drop (length (workers w0)) (workers w))"
  have kept: "outcome_sat (pose_kept (actorLocation p0) (actorRotation p0) (length (workers w0))) ?J
                (run calls (BeginPlay mapName (p0, w0)))"
    by (rule pose_run) (rule pose_BeginPlay [OF sel])
  have "?J (outcome_world (run calls (BeginPlay mapName (p0, w0))))"
    by (rule outcome_sat_world [OF kept]) (simp add: pose_kept_def)
  then show "seeded_with (actorLocation p0) (actorRotation p0)
        (drop (length (workers w0))
           (workers (outcome_world (run calls (BeginPlay mapName (p0, w0))))))"
    by simp
  show "\<forall>p' w'. run calls (BeginPlay mapName (p0, w0)) = Inr (p', w') \<longrightarrow>
         startLocation p' = actorLocation p0 \<and> startRotation p' = actorRotation p0"
    using kept by (auto simp add: pose_kept_def)
qed

theorem crash_restart_uses_start_pose_witness:
  "kin_crashed (example_input\<lparr>kin_crashed := True\<rparr>) \<and>
   deref (snd example_flying) (flightManager (fst example_flying)) = Inr 0 \<and>
   deref (snd example_flying) (videoManager (fst example_flying)) = Inr 1 \<and>
   \<not> FString_Contains ''FlightMap'' ''Untitled'' \<and>
   (\<exists>p' w'. getKinematics (example_input\<lparr>kin_crashed := True\<rparr>) example_flying = Inr (p', w') \<and>
      flightManager p' = Some 2 \<and> videoManager p' = Some 3 \<and>
      workers w' ! 2 =
        \<lparr>kind = FFlightManager example_frame () (FVector (Finite False 1) (Finite False 2) (Finite False 3)) (FRotator (Finite False 0) (Finite False 90) (Finite False 0)),
         running = True\<rparr> \<and>
      startLocation p' = FVector (Finite False 1) (Finite False 2) (Finite False 3) \<and> startRotation p' = FRotator (Finite False 0) (Finite False 90) (Finite False 0)) \<and>
   seeded_with (FVector (Finite False 1) (Finite False 2) (Finite False 3)) (FRotator (Finite False 0) (Finite False 90) (Finite False 0))
     (workers (outcome_world
        (run [CallTick (example_input\<lparr>kin_crashed := True\<rparr>), CallTick example_input]
           example_flying)))"
proof -
  have u: "\<not> FString_Contains ''FlightMap'' ''Untitled''"
    by (simp add: FString_Contains_def ToUpper_def)
  have c: "kin_crashed (example_input\<lparr>kin_crashed := True\<rparr>)" by simp
  note d = example_flying_facts(3,4)
  have e: "example_flying = (fst example_flying, snd example_flying)" by simp
  have vals: "length (workers (snd example_flying)) = 2"
    "frame (fst example_flying) = example_frame" "params (fst example_flying) = ()"
    "startLocation (fst example_flying) = FVector (Finite False 1) (Finite False 2) (Finite False 3)"
    "startRotation (fst example_flying) = FRotator (Finite False 0) (Finite False 90) (Finite False 0)"
    by (simp_all add: example_flying_eq example_pawn_def)
  have pw: "actorLocation example_pawn = FVector (Finite False 1) (Finite False 2) (Finite False 3)" "actorRotation example_pawn = FRotator (Finite False 0) (Finite False 90) (Finite False 0)"
    "workers (example_world\<lparr>count := 11\<rparr>) = []"
    by (simp_all add: example_pawn_def example_world_def)
  from crash_restart_uses_start_pose
    [of "example_input\<lparr>kin_crashed := True\<rparr>" "snd example_flying" "fst example_flying" 0 1
        "''FlightMap''" example_pawn "example_world\<lparr>count := 11\<rparr>"
        "[CallTick (example_input\<lparr>kin_crashed := True\<rparr>), CallTick example_input]"]
  show ?thesis
    using u c d
    apply (simp only: e [symmetric] example_flying_def [symmetric])
    apply (simp add: vals pw)
    apply (elim exE conjE)
    apply (simp add: numeral_2_eq_2 numeral_3_eq_3)
    done
qed

text \<open>
  \<^bold>\<open>C2.\<close> If the map name makes \<^verbatim>\<open>BeginPlay\<close> decide that no map is selected, then
  whatever calls of \<^verbatim>\<open>Tick\<close> and \<^verbatim>\<open>EndPlay\<close> follow, the execution completes with the
  worker list unchanged (no worker is ever created), the error \<open>NO MAP SELECTED\<close>
  reported, and nothing else in the trace but the parent-class calls: no kinematics
  read, no animation, no gimbal and no video access.
\<close>

theorem no_map_no_simulation:
  assumes "FString_Contains mapName ''Untitled''"
  shows "run calls (BeginPlay mapName (p, w)) =
           Inr (p\<lparr>mapSelected := False\<rparr>,
                w\<lparr>trace := trace w @ [Error ''NO MAP SELECTED'', Super_BeginPlay] @
                             map super_of calls\<rparr>)"
  using assms by (simp add: BeginPlay_unselected unselected_run)

theorem no_map_no_simulation_witness:
  "FString_Contains ''Untitled'' ''Untitled'' \<and>
   run [CallTick example_input, CallTick example_input, CallEndPlay 0]
       (BeginPlay ''Untitled'' (example_pawn, example_world)) =
     Inr (example_pawn\<lparr>mapSelected := False\<rparr>,
          example_world\<lparr>trace :=
            [Error ''NO MAP SELECTED'', Super_BeginPlay, Super_Tick (Finite False (1 / 64)), Super_Tick (Finite False (1 / 64)),
             Super_EndPlay 0]\<rparr>)"
proof -
  have h: "FString_Contains ''Untitled'' ''Untitled''"
    by (simp add: FString_Contains_def ToUpper_def)
  from no_map_no_simulation [OF h, of "[CallTick example_input, CallTick example_input, CallEndPlay 0]"
      example_pawn example_world] h
  show ?thesis by (simp add: example_world_def example_input_def)
qed

text \<open>
  \<^bold>\<open>C3.\<close> After \<^verbatim>\<open>stopThreadedWorkers\<close> returns, each of the two stored handles holds
  the value that \<^verbatim>\<open>FThreadedWorker::stopThreadedWorker\<close> returned for it, and that value is
  the null handle. A method call through either field then faults on the null pointer,
  and the handles the fields held before no longer refer to a running worker, so no
  stopped worker can be reused through those fields.
\<close>

theorem stopThreadedWorkers_nulls_handles:
  "fst (stopThreadedWorker ptr w0) = None \<and>
   flightManager (fst (stopThreadedWorkers (p, w))) =
     fst (stopThreadedWorker (flightManager p) w) \<and>
   videoManager (fst (stopThreadedWorkers (p, w))) =
     fst (stopThreadedWorker (videoManager p) (snd (stopThreadedWorker (flightManager p) w))) \<and>
   flightManager (fst (stopThreadedWorkers (p, w))) = None \<and>
   videoManager (fst (stopThreadedWorkers (p, w))) = None \<and>
   deref (snd (stopThreadedWorkers (p, w))) (flightManager (fst (stopThreadedWorkers (p, w))))
     = Inl NullPointer \<and>
   deref (snd (stopThreadedWorkers (p, w))) (videoManager (fst (stopThreadedWorkers (p, w))))
     = Inl NullPointer \<and>
   (\<forall>h. deref (snd (stopThreadedWorkers (p, w))) (flightManager p) \<noteq> Inr h) \<and>
   (\<forall>h. deref (snd (stopThreadedWorkers (p, w))) (videoManager p) \<noteq> Inr h)"
  by (auto simp add: stopThreadedWorkers_eq deref_def stopThreadedWorker_running
      split: option.split)

text \<open>
  \<^bold>\<open>C4.\<close> Teardown is safe. In every execution that starts with \<^verbatim>\<open>BeginPlay\<close> and goes
  on with any calls of \<^verbatim>\<open>Tick\<close> and \<^verbatim>\<open>EndPlay\<close>, also one that ends in a fault, every stop
  is applied either to a handle that was created and not stopped since, or to the null
  handle after an earlier stop. If no map was selected, \<^verbatim>\<open>EndPlay\<close> calls nothing but its
  parent, no stop appears anywhere in the execution and the worker list stays as it was.
\<close>

theorem teardown_safe:
  assumes "trace w = []"
  shows "stops_safe (trace (outcome_world (run calls (BeginPlay mapName (p, w))))) \<and>
         (FString_Contains mapName ''Untitled'' \<longrightarrow>
            snd (EndPlay r (BeginPlay mapName (p, w))) =
              w\<lparr>trace := [Error ''NO MAP SELECTED'', Super_BeginPlay, Super_EndPlay r]\<rparr> \<and>
            (\<forall>ptr. Stop ptr \<notin> set (trace (outcome_world (run calls (BeginPlay mapName (p, w)))))) \<and>
            workers (outcome_world (run calls (BeginPlay mapName (p, w)))) = workers w)"
proof (intro conjI impI)
  have "handles_tracked (BeginPlay mapName (p, w))"
    using assms by (rule tracked_BeginPlay)
  then have "outcome_sat handles_tracked (\<lambda>w. stops_safe (trace w))
               (run calls (BeginPlay mapName (p, w)))"
    by (rule tracked_run)
  then show "stops_safe (trace (outcome_world (run calls (BeginPlay mapName (p, w)))))"
    by (rule outcome_sat_world) (rule tracked_safe)
next
  assume no: "FString_Contains mapName ''Untitled''"
  show "snd (EndPlay r (BeginPlay mapName (p, w))) =
              w\<lparr>trace := [Error ''NO MAP SELECTED'', Super_BeginPlay, Super_EndPlay r]\<rparr>"
    using no assms by (simp add: BeginPlay_unselected EndPlay_unselected emit_def)
  have run: "run calls (BeginPlay mapName (p, w)) =
           Inr (p\<lparr>mapSelected := False\<rparr>,
                w\<lparr>trace := trace w @ [Error ''NO MAP SELECTED'', Super_BeginPlay] @
                             map super_of calls\<rparr>)"
    using no by (simp add: BeginPlay_unselected unselected_run)
  have "Stop ptr \<notin> super_of ` set calls" for ptr
  proof
    assume "Stop ptr \<in> super_of ` set calls"
    then obtain c where "super_of c = Stop ptr" by auto
    then show False by (cases c) simp_all
  qed
  then show "\<forall>ptr. Stop ptr \<notin> set (trace (outcome_world (run calls (BeginPlay mapName (p, w)))))"
    using assms by (simp add: run)
  show "workers (outcome_world (run calls (BeginPlay mapName (p, w)))) = workers w"
    by (simp add: run)
qed

theorem teardown_safe_witness:
  "trace (snd (example_pawn, example_world\<lparr>count := 11\<rparr>)) = [] \<and>
   FString_Contains ''Untitled'' ''Untitled'' \<and>
   \<not> FString_Contains ''FlightMap'' ''Untitled'' \<and>
   stops_safe (trace (outcome_world
     (run [CallTick (example_input\<lparr>kin_crashed := True\<rparr>), CallEndPlay 0, CallEndPlay 0]
        (BeginPlay ''FlightMap'' (example_pawn, example_world\<lparr>count := 11\<rparr>))))) \<and>
   (\<forall>ptr. Stop ptr \<notin> set (trace (outcome_world
     (run [CallTick example_input, CallEndPlay 0]
        (BeginPlay ''Untitled'' (example_pawn, example_world\<lparr>count := 11\<rparr>))))))"
proof -
  have h: "trace (example_world\<lparr>count := 11\<rparr>) = []"
    by (simp add: example_world_def)
  have u: "FString_Contains ''Untitled'' ''Untitled''"
       "\<not> FString_Contains ''FlightMap'' ''Untitled''"
    by (simp_all add: FString_Contains_def ToUpper_def)
  from teardown_safe [OF h, of "[CallTick (example_input\<lparr>kin_crashed := True\<rparr>), CallEndPlay 0, CallEndPlay 0]"
      "''FlightMap''" example_pawn]
    teardown_safe [OF h, of "[CallTick example_input, CallEndPlay 0]" "''Untitled''" example_pawn 0]
    h u
  show ?thesis by simp
qed

text \<open>
  \<^bold>\<open>C5.\<close> A tick that passes the gate, made while both workers are running and the prop
  meshes are bound, on a frame with at most 255 motors (the loops over the motors count
  with a \<^verbatim>\<open>uint8_t\<close>), completes; the first thing it does is read the flight manager, and
  that is its only kinematics read. The actor's location and rotation are set to the
  values of that read, the motor values of that read are stored, and the pitch and
  volume of the same tick are the single-precision mean of exactly those motor values:
  their sum in index order, divided by the number of motors, each operation rounded as
  \<^verbatim>\<open>float\<close> arithmetic rounds it. That value also decides whether the props are rotated
  in that tick: when it is greater than zero every prop is, otherwise none is and the
  static \<^verbatim>\<open>rotation\<close> keeps its value. These conditions hold throughout a play: after a
  \<^verbatim>\<open>BeginPlay\<close> that selects the map, with the prop meshes bound, any number of ticks
  completes and leaves both workers running.
\<close>

theorem Tick_reads_once_and_applies:
  "(mapSelected p \<and> 10 < count w \<and>
    deref w (flightManager p) = Inr h \<and> deref w (videoManager p) = Inr v \<and>
    (\<forall>j<nmotors (frame p). propMeshes p j \<noteq> None) \<and> nmotors (frame p) \<le> 255 \<longrightarrow>
    (\<exists>p' w' es.
       Tick inp (p, w) = Inr (p', w') \<and> trace w' = trace w @ es \<and>
       hd es = FM_getKinematics h \<and>
       length (filter is_kinematics_read es) = 1 \<and>
       actorLocation p' = kin_location inp \<and> actorRotation p' = kin_rotation inp \<and>
       SetActorLocation (kin_location inp) \<in> set es \<and>
       SetActorRotation (kin_rotation inp) \<in> set es \<and>
       motorvals p' = kin_motorvals inp \<and>
       SetFloatParameter ''pitch'' (float_mean (kin_motorvals inp) (nmotors (frame p))) \<in> set es \<and>
       SetFloatParameter ''volume'' (float_mean (kin_motorvals inp) (nmotors (frame p))) \<in> set es \<and>
       (fgt (float_mean (kin_motorvals inp) (nmotors (frame p))) (float_of_int 0) \<longrightarrow>
          set (prop_events (p\<lparr>motorvals := kin_motorvals inp\<rparr>) (rotation w)) \<subseteq> set es) \<and>
       (\<not> fgt (float_mean (kin_motorvals inp) (nmotors (frame p))) (float_of_int 0) \<longrightarrow>
          rotation w' = rotation w \<and>
          (\<forall>mesh r. SetRelativeRotation mesh r \<notin> set es)))) \<and>
   (\<not> FString_Contains mapName ''Untitled'' \<and>
    (\<forall>j<nmotors (frame p0). propMeshes p0 j \<noteq> None) \<and> nmotors (frame p0) \<le> 255 \<longrightarrow>
    (\<exists>q u hq vq.
       run (map CallTick inps) (BeginPlay mapName (p0, w0)) = Inr (q, u) \<and>
       mapSelected q \<and>
       deref u (flightManager q) = Inr hq \<and> deref u (videoManager q) = Inr vq \<and>
       frame q = frame p0 \<and> propMeshes q = propMeshes p0))"
proof (intro conjI impI)
  assume "mapSelected p \<and> 10 < count w \<and>
    deref w (flightManager p) = Inr h \<and> deref w (videoManager p) = Inr v \<and>
    (\<forall>j<nmotors (frame p). propMeshes p j \<noteq> None) \<and> nmotors (frame p) \<le> 255"
  then show "\<exists>p' w' es.
       Tick inp (p, w) = Inr (p', w') \<and> trace w' = trace w @ es \<and>
       hd es = FM_getKinematics h \<and>
       length (filter is_kinematics_read es) = 1 \<and>
       actorLocation p' = kin_location inp \<and> actorRotation p' = kin_rotation inp \<and>
       SetActorLocation (kin_location inp) \<in> set es \<and>
       SetActorRotation (kin_rotation inp) \<in> set es \<and>
       motorvals p' = kin_motorvals inp \<and>
       SetFloatParameter ''pitch'' (float_mean (kin_motorvals inp) (nmotors (frame p))) \<in> set es \<and>
       SetFloatParameter ''volume'' (float_mean (kin_motorvals inp) (nmotors (frame p))) \<in> set es \<and>
       (fgt (float_mean (kin_motorvals inp) (nmotors (frame p))) (float_of_int 0) \<longrightarrow>
          set (prop_events (p\<lparr>motorvals := kin_motorvals inp\<rparr>) (rotation w)) \<subseteq> set es) \<and>
       (\<not> fgt (float_mean (kin_motorvals inp) (nmotors (frame p))) (float_of_int 0) \<longrightarrow>
          rotation w' = rotation w \<and>
          (\<forall>mesh r. SetRelativeRotation mesh r \<notin> set es))"
    by (intro gated_Tick_effects) simp_all
next
  assume a: "\<not> FString_Contains mapName ''Untitled'' \<and>
    (\<forall>j<nmotors (frame p0). propMeshes p0 j \<noteq> None) \<and> nmotors (frame p0) \<le> 255"
  then have "\<And>j. j < nmotors (frame p0) \<Longrightarrow> propMeshes p0 j \<noteq> None" by simp
  with a show "\<exists>q u hq vq.
       run (map CallTick inps) (BeginPlay mapName (p0, w0)) = Inr (q, u) \<and>
       mapSelected q \<and>
       deref u (flightManager q) = Inr hq \<and> deref u (videoManager q) = Inr vq \<and>
       frame q = frame p0 \<and> propMeshes q = propMeshes p0"
    by (intro play_keeps_running) simp_all
qed

theorem Tick_reads_once_and_applies_witness:
  "mapSelected (fst example_flying) \<and> 10 < count (snd example_flying) \<and>
   deref (snd example_flying) (flightManager (fst example_flying)) = Inr 0 \<and>
   deref (snd example_flying) (videoManager (fst example_flying)) = Inr 1 \<and>
   nmotors (frame (fst example_flying)) = 4 \<and>
   propMeshes (fst example_flying) = (\<lambda>j. Some j) \<and>
   (\<exists>p' w' es.
      Tick example_input example_flying = Inr (p', w') \<and>
      trace w' = trace (snd example_flying) @ es \<and>
      length (filter is_kinematics_read es) = 1 \<and>
      actorLocation p' = FVector (Finite False 4) (Finite False 5) (Finite False 6) \<and>
      actorRotation p' = FRotator (Finite False 1) (Finite False 2) (Finite False 3) \<and>
      SetFloatParameter ''pitch'' (Finite False (1 / 2)) \<in> set es \<and>
      SetFloatParameter ''volume'' (Finite False (1 / 2)) \<in> set es \<and>
      set (prop_events (fst example_flying\<lparr>motorvals := kin_motorvals example_input\<rparr>)
             (rotation (snd example_flying))) \<subseteq> set es) \<and>
   \<not> FString_Contains ''FlightMap'' ''Untitled'' \<and>
   propMeshes example_pawn = (\<lambda>j. Some j) \<and> nmotors (frame example_pawn) = 4 \<and>
   (\<exists>q u hq vq.
      run (map CallTick (replicate 20 example_input))
          (BeginPlay ''FlightMap'' (example_pawn, example_world)) = Inr (q, u) \<and>
      mapSelected q \<and>
      deref u (flightManager q) = Inr hq \<and> deref u (videoManager q) = Inr vq)"
proof -
  note f = example_flying_facts
  have props: "\<forall>j<nmotors (frame (fst example_flying)). propMeshes (fst example_flying) j \<noteq> None"
    by (simp add: f(5))
  have sm: "nmotors (frame (fst example_flying)) \<le> 255" by (simp add: f(6))
  have e: "(fst example_flying, snd example_flying) = example_flying" by simp
  have m: "float_mean (kin_motorvals example_input) (nmotors (frame (fst example_flying)))
             = Finite False (1 / 2)"
    by (simp add: f(6) example_input_def example_means(1))
  have g: "fgt (Finite False (1 / 2)) (float_of_int 0)" by (rule example_means(2))
  have k: "kin_location example_input = FVector (Finite False 4) (Finite False 5) (Finite False 6)"
    "kin_rotation example_input = FRotator (Finite False 1) (Finite False 2) (Finite False 3)"
    by (simp_all add: example_input_def)
  have pm: "propMeshes (fst example_flying) = (\<lambda>j. Some j)"
    by (simp add: example_flying_eq example_pawn_def)
  have u: "\<not> FString_Contains ''FlightMap'' ''Untitled''"
    by (simp add: FString_Contains_def ToUpper_def)
  have pm0: "propMeshes example_pawn = (\<lambda>j. Some j)" "nmotors (frame example_pawn) = 4"
    by (simp_all add: example_pawn_def example_frame_def)
  then have props0: "\<forall>j<nmotors (frame example_pawn). propMeshes example_pawn j \<noteq> None"
    "nmotors (frame example_pawn) \<le> 255"
    by simp_all
  from Tick_reads_once_and_applies
    [of "fst example_flying" "snd example_flying" 0 1 example_input
        "''FlightMap''" example_pawn "replicate 20 example_input" example_world]
  show ?thesis
    unfolding e m k using f(1-4) f(6) props sm pm u pm0 props0 g by blast
qed

text \<open>
  \<^bold>\<open>C6\<close>, amended. Whatever its base class implements, the object the factory
  \<^verbatim>\<open>MultirotorDynamics::create\<close> returns answers the eight constant accessors and
  \<^verbatim>\<open>maxrpm\<close> with the values \<^verbatim>\<open>BigQuadDynamics\<close> overrides them with: thrust coefficient
  \<open>b\<close>, drag coefficient \<open>d\<close>, mass \<open>m\<close>, arm length \<open>l\<close>, the moments of inertia
  \<open>Ix\<close>, \<open>Iy\<close>, \<open>Iz\<close>, the rotor inertia \<open>Jr\<close>, and 10000 rpm. The factory takes no
  argument and reads no state, so every call gives these values. The motor-direction
  table is not among the overrides: for it the object has what its base class has.
\<close>

theorem factory_supplies_frame_constants:
  "vt_b (MultirotorDynamics_create base) = Some 0.0000530216718361085 \<and>
   vt_d (MultirotorDynamics_create base) = Some 0.00000223656692806239 \<and>
   vt_m (MultirotorDynamics_create base) = Some 16.47 \<and>
   vt_l (MultirotorDynamics_create base) = Some 0.6 \<and>
   vt_Ix (MultirotorDynamics_create base) = Some 2 \<and>
   vt_Iy (MultirotorDynamics_create base) = Some 2 \<and>
   vt_Iz (MultirotorDynamics_create base) = Some 3 \<and>
   vt_Jr (MultirotorDynamics_create base) = Some 0.000308013 \<and>
   vt_maxrpm (MultirotorDynamics_create base) = Some 10000 \<and>
   vt_motordirs (MultirotorDynamics_create base) = vt_motordirs base"
  by (simp add: MultirotorDynamics_create_def dispatch_def member_def BigQuadDynamics_def)

text \<open>
  \<^bold>\<open>C6\<close>, as stated, fails for the motor-direction table: \<^verbatim>\<open>BigQuadDynamics\<close> overrides
  no such member, so over a base class that has none the object the factory returns
  has none either.
\<close>

theorem BigQuadDynamics_overrides_no_motor_table:
  "vt_motordirs BigQuadDynamics = None \<and>
   vt_motordirs (MultirotorDynamics_create no_members) = None"
  by (simp add: MultirotorDynamics_create_def dispatch_def member_def BigQuadDynamics_def
      no_members_def)

text \<open>
  \<^bold>\<open>C7.\<close> Early reads are gated by the tick counter. On a tick where the counter's value
  before the increment is at most 10, \<^verbatim>\<open>Tick\<close> completes with nothing but the parent's
  \<^verbatim>\<open>Tick\<close> in the trace: no kinematics read, no animation, no gimbal and no video access,
  and no worker is touched. A tick whose trace is anything else has a selected map and a
  counter above 10. Starting from the counter's initial value zero, the first 11 ticks
  therefore perform no read.
\<close>

theorem early_reads_are_gated:
  "(count w \<le> 10 \<longrightarrow>
      (\<exists>w'. Tick inp (p, w) = Inr (p, w') \<and>
            trace w' = trace w @ [Super_Tick (DeltaSeconds inp)] \<and>
            workers w' = workers w \<and> rotation w' = rotation w)) \<and>
   (trace (outcome_world (Tick inp (p, w))) \<noteq> trace w @ [Super_Tick (DeltaSeconds inp)] \<longrightarrow>
      mapSelected p \<and> 10 < count w) \<and>
   (count w = 0 \<and> length inps \<le> 11 \<longrightarrow>
      (\<exists>w'. run (map CallTick inps) (p, w) = Inr (p, w') \<and>
            trace w' = trace w @ map (\<lambda>i. Super_Tick (DeltaSeconds i)) inps \<and>
            workers w' = workers w \<and> rotation w' = rotation w))"
proof (intro conjI impI)
  assume le: "count w \<le> 10"
  show "\<exists>w'. Tick inp (p, w) = Inr (p, w') \<and>
            trace w' = trace w @ [Super_Tick (DeltaSeconds inp)] \<and>
            workers w' = workers w \<and> rotation w' = rotation w"
    using le by (cases "mapSelected p") (simp_all add: Tick_early Tick_unselected)
next
  assume neq: "trace (outcome_world (Tick inp (p, w))) \<noteq> trace w @ [Super_Tick (DeltaSeconds inp)]"
  show "mapSelected p"
    using neq by (rule contrapos_np) (simp add: Tick_unselected)
  show "10 < count w"
  proof (rule ccontr)
    assume "\<not> 10 < count w"
    then have "count w \<le> 10" by simp
    then have "trace (outcome_world (Tick inp (p, w))) = trace w @ [Super_Tick (DeltaSeconds inp)]"
      by (cases "mapSelected p") (simp_all add: Tick_early Tick_unselected)
    with neq show False by simp
  qed
next
  assume "count w = 0 \<and> length inps \<le> 11"
  then have "unat (count w) + length inps \<le> 11" by simp
  then show "\<exists>w'. run (map CallTick inps) (p, w) = Inr (p, w') \<and>
            trace w' = trace w @ map (\<lambda>i. Super_Tick (DeltaSeconds i)) inps \<and>
            workers w' = workers w \<and> rotation w' = rotation w"
    by (rule early_ticks)
qed

theorem early_reads_are_gated_witness:
  "count example_world \<le> 10 \<and>
   (count example_world = 0 \<and> length (replicate 11 example_input) \<le> 11) \<and>
   trace (outcome_world (Tick example_input example_flying)) \<noteq>
     trace (snd example_flying) @ [Super_Tick (DeltaSeconds example_input)] \<and>
   (\<exists>w'. Tick example_input (example_pawn, example_world) = Inr (example_pawn, w') \<and>
      trace w' = trace example_world @ [Super_Tick (DeltaSeconds example_input)]) \<and>
   (mapSelected (fst example_flying) \<and> 10 < count (snd example_flying)) \<and>
   (\<exists>w'. run (map CallTick (replicate 11 example_input)) (fst example_flying, example_world) =
            Inr (fst example_flying, w') \<and>
         trace w' = trace example_world @
            map (\<lambda>i. Super_Tick (DeltaSeconds i)) (replicate 11 example_input))"
proof -
  have c: "count example_world \<le> 10" "count example_world = 0"
    by (simp_all add: example_world_def)
  have l: "length (replicate 11 example_input) \<le> 11" by simp
  have e: "(fst example_flying, snd example_flying) = example_flying" by simp
  have props: "\<And>j. j < nmotors (frame (fst example_flying)) \<Longrightarrow>
                  propMeshes (fst example_flying) j \<noteq> None"
    by (simp add: example_flying_facts(5))
  have nc: "\<not> kin_crashed example_input" by (simp add: example_input_def)
  have sm: "nmotors (frame (fst example_flying)) \<le> 255"
    by (simp add: example_flying_facts(6))
  have neq: "trace (outcome_world (Tick example_input example_flying)) \<noteq>
     trace (snd example_flying) @ [Super_Tick (DeltaSeconds example_input)]"
    using Tick_flying [OF example_flying_facts(1-4) props nc sm]
    by (simp add: e)
  from early_reads_are_gated [of example_world example_input example_pawn "[]"]
       early_reads_are_gated [of "snd example_flying" example_input "fst example_flying" "[]"]
       early_reads_are_gated [of example_world example_input "fst example_flying" "replicate 11 example_input"]
  show ?thesis
    unfolding e using c l neq by blast
qed

text \<open>
  \<^bold>\<open>C8\<close>, amended. Whether \<^verbatim>\<open>BeginPlay\<close> selects the map depends on the map name alone:
  the map is selected exactly when the name does not contain \<open>Untitled\<close> with letter case
  ignored (the default search case of \<^verbatim>\<open>FString::Contains\<close>). A name that contains
  \<open>Untitled\<close> in any letter case, so in particular one that contains it letter for
  letter, makes \<^verbatim>\<open>BeginPlay\<close> report \<open>NO MAP SELECTED\<close> and start no worker.
\<close>

theorem map_selected_by_name:
  "mapSelected (fst (BeginPlay mapName (p, w))) =
     (\<not> sublist (map ToUpper ''Untitled'') (map ToUpper mapName)) \<and>
   (sublist (map ToUpper ''Untitled'') (map ToUpper mapName) \<longrightarrow>
      BeginPlay mapName (p, w) =
        (p\<lparr>mapSelected := False\<rparr>,
         w\<lparr>trace := trace w @ [Error ''NO MAP SELECTED'', Super_BeginPlay]\<rparr>)) \<and>
   (sublist ''Untitled'' mapName \<longrightarrow>
      BeginPlay mapName (p, w) =
        (p\<lparr>mapSelected := False\<rparr>,
         w\<lparr>trace := trace w @ [Error ''NO MAP SELECTED'', Super_BeginPlay]\<rparr>))"
proof (intro conjI impI)
  show "mapSelected (fst (BeginPlay mapName (p, w))) =
     (\<not> sublist (map ToUpper ''Untitled'') (map ToUpper mapName))"
    unfolding FString_Contains_Untitled [symmetric]
    by (cases "FString_Contains mapName ''Untitled''")
       (simp_all add: BeginPlay_selected BeginPlay_unselected)
next
  assume "sublist (map ToUpper ''Untitled'') (map ToUpper mapName)"
  then have "FString_Contains mapName ''Untitled''"
    by (simp only: FString_Contains_Untitled)
  then show "BeginPlay mapName (p, w) =
        (p\<lparr>mapSelected := False\<rparr>,
         w\<lparr>trace := trace w @ [Error ''NO MAP SELECTED'', Super_BeginPlay]\<rparr>)"
    by (rule BeginPlay_unselected)
next
  assume "sublist ''Untitled'' mapName"
  then have "sublist (map ToUpper ''Untitled'') (map ToUpper mapName)"
    by (rule map_mono_sublist)
  then have "FString_Contains mapName ''Untitled''"
    by (simp only: FString_Contains_Untitled)
  then show "BeginPlay mapName (p, w) =
        (p\<lparr>mapSelected := False\<rparr>,
         w\<lparr>trace := trace w @ [Error ''NO MAP SELECTED'', Super_BeginPlay]\<rparr>)"
    by (rule BeginPlay_unselected)
qed

theorem map_selected_by_name_witness:
  "sublist ''Untitled'' ''UEDPIE_0_Untitled'' \<and>
   sublist (map ToUpper ''Untitled'') (map ToUpper ''untitled_level'') \<and>
   BeginPlay ''UEDPIE_0_Untitled'' (example_pawn, example_world) =
     (example_pawn\<lparr>mapSelected := False\<rparr>,
      example_world\<lparr>trace := trace example_world @
         [Error ''NO MAP SELECTED'', Super_BeginPlay]\<rparr>) \<and>
   BeginPlay ''untitled_level'' (example_pawn, example_world) =
     (example_pawn\<lparr>mapSelected := False\<rparr>,
      example_world\<lparr>trace := trace example_world @
         [Error ''NO MAP SELECTED'', Super_BeginPlay]\<rparr>) \<and>
   mapSelected (fst (BeginPlay ''FlightMap'' (example_pawn, example_world)))"
proof -
  have s: "sublist ''Untitled'' ''UEDPIE_0_Untitled''" by code_simp
  have t: "sublist (map ToUpper ''Untitled'') (map ToUpper ''untitled_level'')"
    unfolding FString_Contains_Untitled [symmetric]
    by (simp add: FString_Contains_def ToUpper_def)
  have u: "\<not> sublist (map ToUpper ''Untitled'') (map ToUpper ''FlightMap'')"
    unfolding FString_Contains_Untitled [symmetric]
    by (simp add: FString_Contains_def ToUpper_def)
  from map_selected_by_name [of "''UEDPIE_0_Untitled''" example_pawn example_world]
       map_selected_by_name [of "''untitled_level''" example_pawn example_world]
       map_selected_by_name [of "''FlightMap''" example_pawn example_world]
       s t u
  show ?thesis by blast
qed

text \<open>
  \<^bold>\<open>C8\<close>, as stated, fails when ``contains'' is read letter for letter: the name
  \<open>untitled_level\<close> does not contain \<open>Untitled\<close>, and still \<^verbatim>\<open>BeginPlay\<close> does not select
  the map.
\<close>

theorem map_selection_case_sensitive_fails:
  "\<not> sublist ''Untitled'' ''untitled_level'' \<and>
   \<not> mapSelected (fst (BeginPlay ''untitled_level'' (example_pawn, example_world)))"
proof
  show "\<not> sublist ''Untitled'' ''untitled_level''" by code_simp
  have "FString_Contains ''untitled_level'' ''Untitled''"
    by (simp add: FString_Contains_def ToUpper_def)
  then show "\<not> mapSelected (fst (BeginPlay ''untitled_level'' (example_pawn, example_world)))"
    by (simp add: BeginPlay_unselected)
qed

text \<open>
  \<^bold>\<open>C9\<close>, amended. The counter belongs to the process, not to a pawn: a tick of any
  instance whose map is selected advances it by one, whatever the outcome of the tick, a
  tick of an instance without a selected map leaves it unchanged, and neither
  \<^verbatim>\<open>BeginPlay\<close> nor \<^verbatim>\<open>EndPlay\<close> resets it. So after an instance \<open>q\<close> with a selected map has
  ticked \<open>n\<close> times on a world whose counter was \<open>c\<close>, a tick of another instance \<open>p\<close>
  with a selected map and a running flight manager performs a kinematics read exactly
  when \<open>c + n\<close> exceeds 10: the gate of one instance depends on the ticks of the other.
\<close>

theorem shared_tick_counter:
  "count (outcome_world (Tick inp (p, w))) = (if mapSelected p then count w + 1 else count w) \<and>
   count (snd (BeginPlay mapName (p, w))) = count w \<and>
   count (snd (EndPlay r (p, w))) = count w \<and>
   (mapSelected q \<and> run (map CallTick inps) (q, w) = Inr (q', w') \<and>
    mapSelected p \<and> deref w' (flightManager p) = Inr h \<longrightarrow>
      count w' = count w + of_nat (length inps) \<and>
      ((\<exists>es. trace (outcome_world (Tick inp (p, w'))) = trace w' @ FM_getKinematics h # es)
        = (10 < count w + of_nat (length inps))))"
proof (intro conjI impI)
  show "count (outcome_world (Tick inp (p, w))) = (if mapSelected p then count w + 1 else count w)"
    by (rule Tick_count_world)
  show "count (snd (BeginPlay mapName (p, w))) = count w"
    by (cases "FString_Contains mapName ''Untitled''")
       (simp_all add: BeginPlay_selected BeginPlay_unselected)
  show "count (snd (EndPlay r (p, w))) = count w"
    by (simp add: EndPlay_def stopThreadedWorkers_eq)
next
  assume a: "mapSelected q \<and> run (map CallTick inps) (q, w) = Inr (q', w') \<and>
    mapSelected p \<and> deref w' (flightManager p) = Inr h"
  then have "mapSelected q" "run (map CallTick inps) (q, w) = Inr (q', w')"
    by simp_all
  then show c: "count w' = count w + of_nat (length inps)"
    by (rule ticks_count)
  from a have "(\<exists>es. trace (outcome_world (Tick inp (p, w'))) = trace w' @ FM_getKinematics h # es)
        = (10 < count w')"
    by (simp add: Tick_read_iff)
  then show "(\<exists>es. trace (outcome_world (Tick inp (p, w'))) = trace w' @ FM_getKinematics h # es)
        = (10 < count w + of_nat (length inps))"
    by (simp only: c)
qed

theorem shared_tick_counter_witness:
  "mapSelected (fst example_first) \<and> mapSelected (fst example_second) \<and>
   (\<exists>w'. run (map CallTick (replicate 11 example_input)) (fst example_first, snd example_second)
            = Inr (fst example_first, w') \<and>
      deref w' (flightManager (fst example_second)) = Inr 2 \<and>
      count w' = 11 \<and>
      (\<exists>es. trace (outcome_world (Tick example_input (fst example_second, w'))) =
               trace w' @ FM_getKinematics 2 # es)) \<and>
   trace (outcome_world (Tick example_input (fst example_second, snd example_second))) =
     trace (snd example_second) @ [Super_Tick (DeltaSeconds example_input)]"
proof -
  note x = example_two
  have "unat (count (snd example_second)) + length (replicate 11 example_input) \<le> 11"
    by (simp add: x(3))
  from early_ticks [OF this, of "fst example_first"] obtain w' where
    run: "run (map CallTick (replicate 11 example_input)) (fst example_first, snd example_second)
            = Inr (fst example_first, w')"
    and ws: "workers w' = workers (snd example_second)"
    by blast
  have d: "deref w' (flightManager (fst example_second)) = Inr 2"
    using x(6) by (simp add: x(5) deref_workers [OF ws])
  from shared_tick_counter [of example_input "fst example_second" "snd example_second"
      "''FlightMap''" 0 "fst example_first" "replicate 11 example_input" "fst example_first" w' 2]
    x(1,2) run d
  have "count w' = count (snd example_second) + of_nat (length (replicate 11 example_input)) \<and>
      ((\<exists>es. trace (outcome_world (Tick example_input (fst example_second, w'))) =
               trace w' @ FM_getKinematics 2 # es)
        = (10 < count (snd example_second) + of_nat (length (replicate 11 example_input))))"
    by blast
  then have "count w' = 11"
    "\<exists>es. trace (outcome_world (Tick example_input (fst example_second, w'))) =
               trace w' @ FM_getKinematics 2 # es"
    by (simp_all add: x(3))
  moreover have "trace (outcome_world (Tick example_input (fst example_second, snd example_second))) =
     trace (snd example_second) @ [Super_Tick (DeltaSeconds example_input)]"
  proof -
    have "count (snd example_second) \<le> 10" by (simp add: x(3))
    from Tick_early [OF x(2) this, of example_input] show ?thesis
      by (simp only: outcome_world_simps emit_fields) simp
  qed
  ultimately show ?thesis
    using x(1,2) run d by blast
qed

text \<open>
  \<^bold>\<open>C9\<close>, as stated, fails: a tick of an instance whose map is not selected leaves
  the counter as it is, because \<^verbatim>\<open>&&\<close> does not evaluate \<^verbatim>\<open>count++\<close> then.
\<close>

theorem tick_counter_not_always_advanced:
  "count (outcome_world (Tick example_input (example_pawn, example_world))) \<noteq>
   count example_world + 1"
  by (simp add: Tick_count_world example_pawn_def example_world_def)

text \<open>
  \<^bold>\<open>C10\<close>, amended. On a frame with at most 255 motors \<^verbatim>\<open>addAnimationEffects\<close> sets the
  audio parameters \<open>pitch\<close> and \<open>volume\<close>, in that order, both to the single-precision
  mean of the \<open>nmotors\<close> motor values: the values are added in index order starting
  from zero and the sum is divided by \<open>nmotors\<close>, each operation rounded as \<^verbatim>\<open>float\<close>
  arithmetic rounds it. When that value is not greater than zero (it is zero, negative,
  or not a number, as for a frame without motors) nothing else happens: no prop is
  rotated and the static \<^verbatim>\<open>rotation\<close> keeps its value. When it is greater than zero and
  the prop meshes are bound, prop \<open>j\<close> for each \<open>j\<close> below \<open>nmotors\<close> is given the yaw
  \<open>rotation * motordirs[j] * 100\<close> in \<^verbatim>\<open>float\<close> arithmetic, so that its sign is that of
  the prop's entry in the motor-direction table, and \<^verbatim>\<open>rotation\<close> is incremented once.
  On a frame with more than 255 motors the first loop never ends and no parameter is
  set.
\<close>

theorem animation_follows_float_mean:
  "(nmotors (frame p) \<le> 255 \<longrightarrow>
      (\<exists>es. trace (outcome_world (addAnimationEffects (p, w))) =
         trace w @ [SetFloatParameter ''pitch'' (float_mean (motorvals p) (nmotors (frame p))),
                    SetFloatParameter ''volume'' (float_mean (motorvals p) (nmotors (frame p)))] @ es) \<and>
      (\<not> fgt (float_mean (motorvals p) (nmotors (frame p))) (float_of_int 0) \<longrightarrow>
         addAnimationEffects (p, w) =
           Inr (p, w\<lparr>trace := trace w @
             [SetFloatParameter ''pitch'' (float_mean (motorvals p) (nmotors (frame p))),
              SetFloatParameter ''volume'' (float_mean (motorvals p) (nmotors (frame p)))]\<rparr>)) \<and>
      (fgt (float_mean (motorvals p) (nmotors (frame p))) (float_of_int 0) \<and>
       (\<forall>j<nmotors (frame p). propMeshes p j \<noteq> None) \<longrightarrow>
         addAnimationEffects (p, w) =
           Inr (p, w\<lparr>trace := trace w @
             [SetFloatParameter ''pitch'' (float_mean (motorvals p) (nmotors (frame p))),
              SetFloatParameter ''volume'' (float_mean (motorvals p) (nmotors (frame p)))] @
             prop_events p (rotation w),
             rotation := fadd (rotation w) (float_of_int 1)\<rparr>) \<and>
         length (prop_events p (rotation w)) = nmotors (frame p) \<and>
         (\<forall>j<nmotors (frame p).
            prop_events p (rotation w) ! j =
              SetRelativeRotation (the (propMeshes p j))
                (FRotator (float_of_int 0)
                   (fmul (fmul (rotation w) (float_of_int (motordirs (frame p) j)))
                      (float_of_int 100))
                   (float_of_int 0))))) \<and>
   (255 < nmotors (frame p) \<longrightarrow> addAnimationEffects (p, w) = Inl (NoReturn, w))"
proof (intro conjI impI)
  assume big: "255 < nmotors (frame p)"
  then show "addAnimationEffects (p, w) = Inl (NoReturn, w)"
    by (simp add: addAnimationEffects_def)
next
  let ?m = "float_mean (motorvals p) (nmotors (frame p))"
  let ?w1 = "setAudioPitchAndVolume ?m w"
  have m: "fdiv (sum_motorvals (motorvals p) (nmotors (frame p)))
             (float_of_int (int (nmotors (frame p)))) = ?m"
    by (simp add: float_mean_def sum_motorvals_foldl)
  have w1: "trace ?w1 = trace w @ [SetFloatParameter ''pitch'' ?m, SetFloatParameter ''volume'' ?m]"
    by (simp add: setAudioPitchAndVolume_def)
  assume small: "nmotors (frame p) \<le> 255"
  show "\<exists>es. trace (outcome_world (addAnimationEffects (p, w))) =
       trace w @ [SetFloatParameter ''pitch'' ?m, SetFloatParameter ''volume'' ?m] @ es"
  proof (cases "fgt ?m (float_of_int 0)")
    case False
    with small show ?thesis
      by (simp add: addAnimationEffects_def Let_def m w1)
  next
    case True
    have "\<exists>es. trace (outcome_world (case rotate_props p [0..<nmotors (frame p)] ?w1 of
                 Inl x \<Rightarrow> Inl x
               | Inr w' \<Rightarrow> Inr (p, w'\<lparr>rotation := fadd (rotation w') (float_of_int 1)\<rparr>)))
          = trace ?w1 @ es \<and> list_all neutral es"
      by (rule rotate_props_quiet [THEN conjunct1]) simp_all
    then obtain es where
      "trace (outcome_world (case rotate_props p [0..<nmotors (frame p)] ?w1 of
                 Inl x \<Rightarrow> Inl x
               | Inr w' \<Rightarrow> Inr (p, w'\<lparr>rotation := fadd (rotation w') (float_of_int 1)\<rparr>)))
          = trace ?w1 @ es"
      by blast
    with True small show ?thesis
      by (simp add: addAnimationEffects_def Let_def m w1)
  qed
  show "addAnimationEffects (p, w) =
         Inr (p, w\<lparr>trace := trace w @
           [SetFloatParameter ''pitch'' ?m, SetFloatParameter ''volume'' ?m]\<rparr>)"
    if "\<not> fgt ?m (float_of_int 0)"
    using that small
    by (simp add: addAnimationEffects_def Let_def m setAudioPitchAndVolume_def emit_def)
  show "addAnimationEffects (p, w) =
         Inr (p, w\<lparr>trace := trace w @
           [SetFloatParameter ''pitch'' ?m, SetFloatParameter ''volume'' ?m] @
           prop_events p (rotation w),
           rotation := fadd (rotation w) (float_of_int 1)\<rparr>)"
    if a: "fgt ?m (float_of_int 0) \<and> (\<forall>j<nmotors (frame p). propMeshes p j \<noteq> None)"
  proof -
    from a have "\<And>j. j < nmotors (frame p) \<Longrightarrow> propMeshes p j \<noteq> None" by simp
    from addAnimationEffects_eq [OF this small, of w] a show ?thesis
      by (simp add: animation_events_def next_rotation_def motormean_def)
  qed
  show "length (prop_events p (rotation w)) = nmotors (frame p)"
    by (simp add: prop_events_nth)
  show "\<forall>j<nmotors (frame p).
          prop_events p (rotation w) ! j =
            SetRelativeRotation (the (propMeshes p j))
              (FRotator (float_of_int 0)
                 (fmul (fmul (rotation w) (float_of_int (motordirs (frame p) j)))
                    (float_of_int 100))
                 (float_of_int 0))"
    by (simp add: prop_events_nth)
qed

theorem animation_follows_float_mean_witness:
  "nmotors (frame (example_with (\<lambda>j. Finite False (1 / 2)))) = 4 \<and>
   propMeshes (example_with (\<lambda>j. Finite False (1 / 2))) = (\<lambda>j. Some j) \<and>
   float_mean (\<lambda>j. Finite False (1 / 2)) 4 = Finite False (1 / 2) \<and>
   fgt (Finite False (1 / 2)) (float_of_int 0) \<and>
   rotation example_turning = Finite False 3 \<and>
   addAnimationEffects (example_with (\<lambda>j. Finite False (1 / 2)), example_turning) =
     Inr (example_with (\<lambda>j. Finite False (1 / 2)),
          example_turning\<lparr>trace := trace example_turning @
            [SetFloatParameter ''pitch'' (Finite False (1 / 2)),
             SetFloatParameter ''volume'' (Finite False (1 / 2)),
             SetRelativeRotation 0 (FRotator (Finite False 0) (Finite True 300) (Finite False 0)),
             SetRelativeRotation 1 (FRotator (Finite False 0) (Finite True 300) (Finite False 0)),
             SetRelativeRotation 2 (FRotator (Finite False 0) (Finite False 300) (Finite False 0)),
             SetRelativeRotation 3 (FRotator (Finite False 0) (Finite False 300) (Finite False 0))],
            rotation := Finite False 4\<rparr>) \<and>
   float_mean example_tiny 4 = Finite False 0 \<and>
   \<not> fgt (Finite False 0) (float_of_int 0) \<and>
   addAnimationEffects (example_with example_tiny, example_turning) =
     Inr (example_with example_tiny,
          example_turning\<lparr>trace := trace example_turning @
            [SetFloatParameter ''pitch'' (Finite False 0),
             SetFloatParameter ''volume'' (Finite False 0)]\<rparr>) \<and>
   nmotors (frame example_wide) = 256 \<and>
   addAnimationEffects (example_wide, example_turning) = Inl (NoReturn, example_turning)"
proof -
  note f = example_with_facts
  let ?half = "\<lambda>j::nat. Finite False (1 / 2)"
  have props: "\<forall>j<nmotors (frame (example_with ?half)).
      propMeshes (example_with ?half) j \<noteq> None"
    by (simp add: f)
  have sm: "nmotors (frame (example_with mv)) \<le> 255" for mv
    by (simp add: f)
  have big: "255 < nmotors (frame example_wide)" by (simp add: f)
  from animation_follows_float_mean [of "example_with ?half" example_turning]
       animation_follows_float_mean [of "example_with example_tiny" example_turning]
       animation_follows_float_mean [of example_wide example_turning]
  show ?thesis
    using props sm big
    by (simp add: f example_means(1,2) tiny_mean(1,3) turning_props turning_values)
qed

text \<open>
  \<^bold>\<open>C10\<close>, as stated, fails. With the motor values nearest to 0.1, 0.2, 0.3 and 0.4
  pitch and volume are set to \<open>1/4\<close>, which is not their arithmetic mean. With the
  motor values \<open>-16777216\<close>, \<open>-1\<close>, \<open>16777216\<close>, \<open>1\<close> the arithmetic mean is zero, and
  still pitch and volume are set to \<open>1/4\<close> and all four props are rotated.
\<close>

theorem float_mean_differs_from_arithmetic_mean:
  "map example_tenths [0..<4] =
     [Finite False (13421773 / 134217728), Finite False (13421773 / 67108864),
      Finite False (5033165 / 16777216), Finite False (13421773 / 33554432)] \<and>
   arithmetic_mean example_tenths 4 = Some (134217731 / 536870912) \<and>
   addAnimationEffects (example_with example_tenths, example_turning) =
     Inr (example_with example_tenths,
          example_turning\<lparr>trace := trace example_turning @
            [SetFloatParameter ''pitch'' (Finite False (1 / 4)),
             SetFloatParameter ''volume'' (Finite False (1 / 4)),
             SetRelativeRotation 0 (FRotator (Finite False 0) (Finite True 300) (Finite False 0)),
             SetRelativeRotation 1 (FRotator (Finite False 0) (Finite True 300) (Finite False 0)),
             SetRelativeRotation 2 (FRotator (Finite False 0) (Finite False 300) (Finite False 0)),
             SetRelativeRotation 3 (FRotator (Finite False 0) (Finite False 300) (Finite False 0))],
            rotation := Finite False 4\<rparr>) \<and>
   valof (Finite False (1 / 4)) \<noteq> arithmetic_mean example_tenths 4 \<and>
   map example_cancel [0..<4] =
     [Finite True 16777216, Finite True 1, Finite False 16777216, Finite False 1] \<and>
   arithmetic_mean example_cancel 4 = Some 0 \<and>
   addAnimationEffects (example_with example_cancel, example_turning) =
     Inr (example_with example_cancel,
          example_turning\<lparr>trace := trace example_turning @
            [SetFloatParameter ''pitch'' (Finite False (1 / 4)),
             SetFloatParameter ''volume'' (Finite False (1 / 4)),
             SetRelativeRotation 0 (FRotator (Finite False 0) (Finite True 300) (Finite False 0)),
             SetRelativeRotation 1 (FRotator (Finite False 0) (Finite True 300) (Finite False 0)),
             SetRelativeRotation 2 (FRotator (Finite False 0) (Finite False 300) (Finite False 0)),
             SetRelativeRotation 3 (FRotator (Finite False 0) (Finite False 300) (Finite False 0))],
            rotation := Finite False 4\<rparr>)"
proof -
  have v: "valof (Finite False (1 / 4)) \<noteq> arithmetic_mean example_tenths 4"
    by (simp add: tenths_mean(2) signed_def)
  have c: "map example_cancel [0..<4] =
     [Finite True 16777216, Finite True 1, Finite False 16777216, Finite False 1]"
    by code_simp
  show ?thesis
    using tenths_values tenths_mean(2) v c cancel_mean(2)
      example_with_spins [OF tenths_mean(1) tenths_mean(3)]
      example_with_spins [OF cancel_mean(1) tenths_mean(3)]
    by (intro conjI)
qed

end
